theory Spec2Isabelle
  imports Main "HOL-Library.AList"
begin

section \<open>The plugin subsystem of scriptor.py\<close>

text \<open>
  The development embeds the plugin manager of \<^verbatim>\<open>scriptor.py\<close> (classes
  \<^verbatim>\<open>Plugin\<close>, \<^verbatim>\<open>PluginAPI\<close> and \<^verbatim>\<open>PluginManager\<close>, lines 43 to 138). The
  Qt user interface around it is not modelled.

  Python dictionaries keep insertion order, so they are association lists here:
  \<open>map_of\<close> reads a key, \<open>AList.update\<close> stores one (in place when the key is present,
  at the end otherwise) and \<open>AList.delete\<close> removes one.
\<close>

subsection \<open>Values, exceptions and plugin code\<close>

text \<open>
  Callbacks are opaque Python values. \<open>FuncVal i\<close> is a callable with handle \<open>i\<close>; every
  other value is not callable, and calling it raises \<^verbatim>\<open>TypeError\<close>.
\<close>

datatype pyval = NoneVal | StrVal string | IntVal int | FuncVal nat

text \<open>
  The exceptions the code raises itself, the ones the library calls raise, and the ones
  plugin code may raise. \<open>PluginError\<close> stands for any other subclass of
  \<^verbatim>\<open>Exception\<close>; \<open>SystemExit\<close>, \<open>KeyboardInterrupt\<close> and \<open>OtherBaseException\<close>
  derive from \<^verbatim>\<open>BaseException\<close> only.
\<close>

datatype exc =
    FileNotFoundError string
  | OSError string
  | RuntimeError string
  | KeyError string
  | BadZipFile string
  | TypeError string
  | PluginError string
  | SystemExit
  | KeyboardInterrupt
  | OtherBaseException string

text \<open>What \<^verbatim>\<open>except Exception\<close> catches.\<close>

fun is_Exception :: "exc \<Rightarrow> bool" where
  "is_Exception SystemExit = False"
| "is_Exception KeyboardInterrupt = False"
| "is_Exception (OtherBaseException m) = False"
| "is_Exception e = True"

text \<open>The text of \<^verbatim>\<open>f"{e}"\<close>. The traceback that the source appends is left out.\<close>

fun exc_text :: "exc \<Rightarrow> string" where
  "exc_text (FileNotFoundError m) = m"
| "exc_text (OSError m) = m"
| "exc_text (RuntimeError m) = m"
| "exc_text (KeyError m) = m"
| "exc_text (BadZipFile m) = m"
| "exc_text (TypeError m) = m"
| "exc_text (PluginError m) = m"
| "exc_text SystemExit = []"
| "exc_text KeyboardInterrupt = []"
| "exc_text (OtherBaseException m) = m"

datatype outcome = Returns | Raises exc

text \<open>
  The behaviour of the callables: what the call \<^verbatim>\<open>f(*args, **kwargs)\<close> of the callable
  with a given handle does. A call terminates, and neither touches the plugin table nor
  the disk.
\<close>

type_synonym behaviour = "nat \<Rightarrow> pyval list \<Rightarrow> (string \<times> pyval) list \<Rightarrow> outcome"

definition invoke :: "behaviour \<Rightarrow> pyval \<Rightarrow> pyval list \<Rightarrow> (string \<times> pyval) list \<Rightarrow> outcome" where
  "invoke beh f args kwargs =
     (case f of
        FuncVal i \<Rightarrow> beh i args kwargs
      | _ \<Rightarrow> Raises (TypeError ''object is not callable''))"

text \<open>
  The code of a plugin, as far as the manager observes it. The function \<^verbatim>\<open>register\<close>
  of a module is a script: the calls it makes on the capability object, in order, and
  then how it ends (\<open>None\<close>: it returns; \<open>Some e\<close>: it raises \<open>e\<close>). An attribute
  \<^verbatim>\<open>register\<close> that is not callable is the script \<open>RegisterFn [] (Some (TypeError m))\<close>.
\<close>

datatype reg_action = RegisterHook string pyval | ReadAppName

datatype register_fn = RegisterFn "reg_action list" "exc option"

text \<open>An executed module: its attribute \<^verbatim>\<open>register\<close>, when it has one.\<close>

datatype pymodule = Module "register_fn option"

text \<open>What executing a file as the top-level code of a module does.\<close>

datatype entry_code = Crashes exc | Defines pymodule

subsection \<open>The disk\<close>

text \<open>
  The disk is a list of objects by path (normalised, relative to the working directory,
  components separated by a slash). A directory holds its members by relative name, each
  with what executing it would do; a regular file is a zip archive (its members in the
  order of \<^verbatim>\<open>namelist()\<close>) or something else. The directory \<^verbatim>\<open>plugins\<close> itself always
  exists: the constructor of the manager creates it.
\<close>

type_synonym tree = "(string \<times> entry_code) list"

datatype package = NotZip | Zip tree

datatype node = RegularFile package | Directory tree

type_synonym disk = "(string \<times> node) list"

definition PLUGINS_DIR :: string where
  "PLUGINS_DIR = ''plugins''"

text \<open>
  \<^verbatim>\<open>d / n\<close> for a name without a slash. As in pathlib, joining the empty name or the
  name \<^verbatim>\<open>.\<close> gives \<open>d\<close> itself; the name \<^verbatim>\<open>..\<close> is kept as a component.
\<close>

definition joinpath :: "string \<Rightarrow> string \<Rightarrow> string" where
  "joinpath d n = (if n = [] \<or> n = ''.'' then d else d @ ''/'' @ n)"

text \<open>\<^verbatim>\<open>Path.name\<close>: the final component.\<close>

definition path_name :: "string \<Rightarrow> string" where
  "path_name p = rev (takeWhile (\<lambda>c. c \<noteq> CHR ''/'') (rev p))"

text \<open>
  \<^verbatim>\<open>Path.stem\<close>: the final component without its last suffix. As in pathlib, with
  \<open>i\<close> the index of the last dot of the name, the suffix is cut when
  \<open>0 < i < len(name) - 1\<close>.
\<close>

definition stem :: "string \<Rightarrow> string" where
  "stem p =
     (let nm = path_name p;
          after = takeWhile (\<lambda>c. c \<noteq> CHR ''.'') (rev nm)
      in if CHR ''.'' \<in> set nm \<and> after \<noteq> [] \<and> length after + 1 < length nm
         then take (length nm - length after - 1) nm
         else nm)"

text \<open>
  \<^verbatim>\<open>Path.exists()\<close>. The plugins directory exists, and so does its parent, which is
  what the path \<^verbatim>\<open>plugins/..\<close> names.
\<close>

definition exists_path :: "disk \<Rightarrow> string \<Rightarrow> bool" where
  "exists_path d p =
     (p = PLUGINS_DIR \<or> p = PLUGINS_DIR @ ''/..''
      \<or> (case map_of d p of None \<Rightarrow> False | Some n \<Rightarrow> True))"

definition is_dir :: "disk \<Rightarrow> string \<Rightarrow> bool" where
  "is_dir d p = (case map_of d p of Some (Directory t) \<Rightarrow> True | _ \<Rightarrow> False)"

text \<open>The immediate children of a directory.\<close>

definition is_child_of :: "string \<Rightarrow> string \<Rightarrow> bool" where
  "is_child_of dir p =
     (let k = length dir + 1; n = drop k p
      in take k p = dir @ ''/'' \<and> n \<noteq> [] \<and> CHR ''/'' \<notin> set n)"

definition iterdir :: "disk \<Rightarrow> string \<Rightarrow> string list" where
  "iterdir d dir = filter (is_child_of dir) (map fst d)"

text \<open>
  \<^verbatim>\<open>ZipFile.extractall(dest)\<close>: the members are written in order, a later member of the
  same name over an earlier one, into the directory \<open>dest\<close>, which is created when it does
  not exist.
\<close>

definition write_members :: "tree \<Rightarrow> tree \<Rightarrow> tree" where
  "write_members members t = foldl (\<lambda>acc (n, c). AList.update n c acc) t members"

definition extractall :: "tree \<Rightarrow> string \<Rightarrow> disk \<Rightarrow> disk" where
  "extractall members dest d =
     AList.update dest
       (Directory (write_members members
          (case map_of d dest of Some (Directory t) \<Rightarrow> t | _ \<Rightarrow> []))) d"

text \<open>\<^verbatim>\<open>shutil.rmtree(path)\<close> on a directory: it goes, with everything below it.\<close>

definition below :: "string \<Rightarrow> string \<Rightarrow> bool" where
  "below p k = (take (length p + 1) k = p @ ''/'')"

definition rmtree :: "string \<Rightarrow> disk \<Rightarrow> disk" where
  "rmtree p d = filter (\<lambda>(k, n). k \<noteq> p \<and> \<not> below p k) d"

text \<open>\<^verbatim>\<open>str(idx)\<close> for a natural number: its decimal digits.\<close>

definition digit_char :: "nat \<Rightarrow> char" where
  "digit_char n = char_of (48 + n)"

fun str_nat :: "nat \<Rightarrow> string" where
  "str_nat n = (if n < 10 then [digit_char n] else str_nat (n div 10) @ [digit_char (n mod 10)])"

declare str_nat.simps [simp del]

subsection \<open>Plugin, PluginAPI and the state of the manager\<close>

record Plugin =
  name :: string
  path :: string
  module :: "pymodule option"
  hooks :: "(string \<times> pyval list) list"

text \<open>\<^verbatim>\<open>Plugin(name, path)\<close>\<close>

definition new_Plugin :: "string \<Rightarrow> string \<Rightarrow> Plugin" where
  "new_Plugin n p = \<lparr>name = n, path = p, module = None, hooks = []\<rparr>"

text \<open>The manager: its table \<^verbatim>\<open>self.plugins\<close>, from name to plugin.\<close>

record PluginManager =
  plugins :: "(string \<times> Plugin) list"

record PluginAPI =
  api_plugin :: Plugin
  api_manager :: PluginManager

text \<open>
  What the program prints, and the calls of callbacks it makes, in the order they happen.
  \<open>Invoked n h f args kwargs\<close>: the call \<^verbatim>\<open>f(*args, **kwargs)\<close> is made for hook \<open>h\<close> of
  the plugin named \<open>n\<close>.
\<close>

datatype event =
    PrintLoaded string
  | PrintFailedLoading string exc
  | PrintHookError string string exc
  | Invoked string string pyval "pyval list" "(string \<times> pyval) list"

record state =
  pm :: PluginManager
  disk :: disk
  trace :: "event list"

definition emit :: "event \<Rightarrow> state \<Rightarrow> state" where
  "emit ev s = s\<lparr>trace := trace s @ [ev]\<rparr>"

subsection \<open>PluginAPI\<close>

text \<open>
  \<^verbatim>\<open>register_hook\<close>: a missing name gets the empty list first, then the callback is
  appended to the list of the name.
\<close>

definition register_hook :: "PluginAPI \<Rightarrow> string \<Rightarrow> pyval \<Rightarrow> PluginAPI" where
  "register_hook api nm func =
     (let p = api_plugin api;
          h1 = (if map_of (hooks p) nm = None then AList.update nm [] (hooks p) else hooks p);
          h2 = (case map_of h1 nm of
                  Some fs \<Rightarrow> AList.update nm (fs @ [func]) h1
                | None \<Rightarrow> h1)
      in api\<lparr>api_plugin := p\<lparr>hooks := h2\<rparr>\<rparr>)"

definition app_name :: "PluginAPI \<Rightarrow> string" where
  "app_name api = ''Scriptor''"

text \<open>Running the script of \<^verbatim>\<open>register(api)\<close>: the capability object afterwards, and how it ended.\<close>

fun run_action :: "PluginAPI \<Rightarrow> reg_action \<Rightarrow> PluginAPI" where
  "run_action api (RegisterHook nm func) = register_hook api nm func"
| "run_action api ReadAppName = api"

fun call_register :: "register_fn \<Rightarrow> PluginAPI \<Rightarrow> exc option \<times> PluginAPI" where
  "call_register (RegisterFn acts fin) api = (fin, foldl run_action api acts)"

subsection \<open>PluginManager\<close>

text \<open>\<^verbatim>\<open>path / "plugin-main.py"\<close>, when it exists: what executing it does.\<close>

definition main_of :: "disk \<Rightarrow> string \<Rightarrow> entry_code option" where
  "main_of d p =
     (case map_of d p of
        Some (Directory t) \<Rightarrow> map_of t ''plugin-main.py''
      | _ \<Rightarrow> None)"

definition load_plugin_from_dir :: "string \<Rightarrow> state \<Rightarrow> (exc + unit) \<times> state" where
  "load_plugin_from_dir p s =
     (let nm = path_name p; plugin = new_Plugin nm p
      in case main_of (disk s) p of
           None \<Rightarrow> (Inl (FileNotFoundError (''plugin-main.py missing in '' @ p)), s)
         | Some (Crashes e) \<Rightarrow>
             (if is_Exception e
              then (Inl (RuntimeError (''Error executing plugin-main.py: '' @ exc_text e)), s)
              else (Inl e, s))
         | Some (Defines (Module None)) \<Rightarrow>
             (Inl (RuntimeError ''plugin-main.py must provide register(api) function''), s)
         | Some (Defines (Module (Some reg))) \<Rightarrow>
             (case call_register reg \<lparr>api_plugin = plugin, api_manager = pm s\<rparr> of
                (Some e, api) \<Rightarrow>
                  (if is_Exception e
                   then (Inl (RuntimeError (''Plugin register() failed: '' @ exc_text e)),
                         s\<lparr>pm := api_manager api\<rparr>)
                   else (Inl e, s\<lparr>pm := api_manager api\<rparr>))
              | (None, api) \<Rightarrow>
                  (let plugin' = (api_plugin api)\<lparr>module := Some (Module (Some reg))\<rparr>;
                       m = api_manager api
                   in (Inr (),
                       emit (PrintLoaded nm)
                         (s\<lparr>pm := m\<lparr>plugins := AList.update nm plugin' (plugins m)\<rparr>\<rparr>)))))"

text \<open>The loop of \<^verbatim>\<open>load_all_plugins\<close> over the entries of the plugins directory.\<close>

fun load_each :: "string list \<Rightarrow> state \<Rightarrow> (exc + unit) \<times> state" where
  "load_each [] s = (Inr (), s)"
| "load_each (p # ps) s =
     (if is_dir (disk s) p
      then (case load_plugin_from_dir p s of
              (Inr u, s') \<Rightarrow> load_each ps s'
            | (Inl e, s') \<Rightarrow>
                (if is_Exception e
                 then load_each ps (emit (PrintFailedLoading p e) s')
                 else (Inl e, s')))
      else load_each ps s)"

definition load_all_plugins :: "state \<Rightarrow> (exc + unit) \<times> state" where
  "load_all_plugins s =
     (let s0 = s\<lparr>pm := (pm s)\<lparr>plugins := []\<rparr>\<rparr>
      in load_each (iterdir (disk s0) PLUGINS_DIR) s0)"

subsection \<open>Installing, uninstalling and dispatching\<close>

text \<open>Reading the digits back shows that \<open>str_nat\<close> is injective.\<close>

definition digit_val :: "char \<Rightarrow> nat" where
  "digit_val c = of_char c - 48"

definition nat_of_str :: "string \<Rightarrow> nat" where
  "nat_of_str cs = foldl (\<lambda>a c. 10 * a + digit_val c) 0 cs"

lemma digit_val_digit_char: "n < 10 \<Longrightarrow> digit_val (digit_char n) = n"
  by (simp add: digit_val_def digit_char_def)

lemma nat_of_str_snoc: "nat_of_str (cs @ [c]) = 10 * nat_of_str cs + digit_val c"
  by (simp add: nat_of_str_def)

lemma nat_of_str_str_nat: "nat_of_str (str_nat n) = n"
proof (induction n rule: str_nat.induct)
  case (1 n)
  show ?case
  proof (cases "n < 10")
    case True
    then show ?thesis
      by (subst str_nat.simps) (simp add: nat_of_str_def digit_val_digit_char)
  next
    case False
    with 1 have "nat_of_str (str_nat (n div 10)) = n div 10" by simp
    with False show ?thesis
      by (subst str_nat.simps) (simp add: nat_of_str_snoc digit_val_digit_char)
  qed
qed

lemma inj_str_nat: "inj str_nat"
  by (rule inj_on_inverseI [where g = nat_of_str]) (rule nat_of_str_str_nat)

lemma of_char_digit_char: "n < 10 \<Longrightarrow> (of_char (digit_char n) :: nat) = 48 + n"
  by (simp add: digit_char_def)

lemma digit_char_not_slash: "n < 10 \<Longrightarrow> digit_char n \<noteq> CHR ''/''"
proof
  assume n: "n < 10" and "digit_char n = CHR ''/''"
  then have "(of_char (digit_char n) :: nat) = of_char CHR ''/''" by simp
  with n show False by (simp add: of_char_digit_char)
qed

lemma str_nat_no_slash: "CHR ''/'' \<notin> set (str_nat n)"
proof (induction n rule: str_nat.induct)
  case (1 n)
  show ?case
  proof (cases "n < 10")
    case True
    then show ?thesis using digit_char_not_slash [of n] by (subst str_nat.simps) auto
  next
    case False
    with 1 show ?thesis using digit_char_not_slash [of "n mod 10"] by (subst str_nat.simps) auto
  qed
qed

text \<open>The name tried at index \<open>idx\<close>: \<^verbatim>\<open>PLUGINS_DIR / f"{base}_{idx}"\<close>.\<close>

definition suffixed :: "string \<Rightarrow> nat \<Rightarrow> string" where
  "suffixed base idx = joinpath PLUGINS_DIR (base @ ''_'' @ str_nat idx)"

lemma suffixed_eq: "suffixed base idx = PLUGINS_DIR @ CHR ''/'' # base @ CHR ''_'' # str_nat idx"
proof -
  have "base @ CHR ''_'' # str_nat idx \<noteq> ''.''"
    by (cases base) simp_all
  then show ?thesis by (simp add: suffixed_def joinpath_def)
qed

lemma inj_suffixed: "inj (suffixed base)"
  using inj_str_nat by (auto simp: inj_def suffixed_eq)

definition taken :: "disk \<Rightarrow> string \<Rightarrow> nat set" where
  "taken d base = {k. exists_path d (suffixed base k)}"

lemma exists_path_iff:
  "exists_path d p \<longleftrightarrow> p \<in> insert PLUGINS_DIR (insert (PLUGINS_DIR @ ''/..'') (fst ` set d))"
proof -
  have "exists_path d p \<longleftrightarrow>
      p = PLUGINS_DIR \<or> p = PLUGINS_DIR @ ''/..'' \<or> map_of d p \<noteq> None"
    by (simp add: exists_path_def split: option.splits)
  then show ?thesis by (simp add: map_of_eq_None_iff)
qed

lemma finite_taken: "finite (taken d base)"
proof -
  have "taken d base =
      suffixed base -` (insert PLUGINS_DIR (insert (PLUGINS_DIR @ ''/..'') (fst ` set d)))"
    by (auto simp: taken_def exists_path_iff)
  then show ?thesis
    by (simp add: finite_vimageI inj_suffixed)
qed

definition probe_bound :: "disk \<Rightarrow> string \<Rightarrow> nat" where
  "probe_bound d base = (if taken d base = {} then 0 else Suc (Max (taken d base)))"

lemma taken_less_bound: "exists_path d (suffixed base k) \<Longrightarrow> k < probe_bound d base"
proof -
  assume "exists_path d (suffixed base k)"
  then have k: "k \<in> taken d base" by (simp add: taken_def)
  then have "k \<le> Max (taken d base)" by (simp add: finite_taken)
  with k show ?thesis by (auto simp: probe_bound_def)
qed

text \<open>
  The loop of \<^verbatim>\<open>install_plugin\<close> that looks for a free destination: its state is
  \<open>dest\<close> and \<open>idx\<close>. It ends because the disk holds finitely many paths and the
  names tried are pairwise different.
\<close>

function find_free :: "disk \<Rightarrow> string \<Rightarrow> string \<Rightarrow> nat \<Rightarrow> string" where
  "find_free d base dest idx =
     (if exists_path d dest
      then find_free d base (joinpath PLUGINS_DIR (base @ ''_'' @ str_nat idx)) (idx + 1)
      else dest)"
  by pat_completeness auto
termination
proof (relation "measure (\<lambda>(d, base, dest, idx).
          2 * (probe_bound d base - idx) + (if exists_path d dest then 1 else 0))")
  show "wf (measure (\<lambda>(d, base, dest, idx).
          2 * (probe_bound d base - idx) + (if exists_path d dest then (1::nat) else 0)))"
    by simp
next
  fix d :: disk and base dest :: string and idx :: nat
  assume ex: "exists_path d dest"
  show "((d, base, joinpath PLUGINS_DIR (base @ ''_'' @ str_nat idx), idx + 1), (d, base, dest, idx))
        \<in> measure (\<lambda>(d, base, dest, idx).
          2 * (probe_bound d base - idx) + (if exists_path d dest then 1 else 0))"
  proof (cases "exists_path d (suffixed base idx)")
    case True
    from taken_less_bound [OF True] ex True show ?thesis
      by (simp add: suffixed_def)
  next
    case False
    with ex show ?thesis by (simp add: suffixed_def)
  qed
qed

declare find_free.simps [simp del]

text \<open>
  \<^verbatim>\<open>install_plugin\<close>. Opening a path that is a directory, or a file that is not a zip
  archive, raises in \<^verbatim>\<open>zipfile.ZipFile\<close>.
\<close>

definition install_plugin :: "string \<Rightarrow> state \<Rightarrow> (exc + string) \<times> state" where
  "install_plugin scpl_path s =
     (case map_of (disk s) scpl_path of
        None \<Rightarrow> (Inl (FileNotFoundError scpl_path), s)
      | Some (Directory t) \<Rightarrow> (Inl (OSError (''Is a directory: '' @ scpl_path)), s)
      | Some (RegularFile NotZip) \<Rightarrow> (Inl (BadZipFile ''File is not a zip file''), s)
      | Some (RegularFile (Zip members)) \<Rightarrow>
          (if ''plugin-main.py'' \<notin> set (map fst members)
           then (Inl (RuntimeError ''.scpl must contain plugin-main.py at root''), s)
           else
             (let base = stem scpl_path;
                  dest = find_free (disk s) base (joinpath PLUGINS_DIR base) 1;
                  s1 = s\<lparr>disk := extractall members dest (disk s)\<rparr>
              in case load_plugin_from_dir dest s1 of
                   (Inl e, s2) \<Rightarrow> (Inl e, s2)
                 | (Inr u, s2) \<Rightarrow> (Inr dest, s2))))"

text \<open>
  \<^verbatim>\<open>uninstall_plugin\<close>. The record is popped before \<^verbatim>\<open>shutil.rmtree\<close> runs, and
  \<^verbatim>\<open>rmtree\<close> raises when the path is missing or is not a directory.
\<close>

definition uninstall_plugin :: "string \<Rightarrow> state \<Rightarrow> (exc + bool) \<times> state" where
  "uninstall_plugin nm s =
     (case map_of (plugins (pm s)) nm of
        None \<Rightarrow> (Inl (KeyError nm), s)
      | Some p \<Rightarrow>
          (let s1 = s\<lparr>pm := (pm s)\<lparr>plugins := AList.delete nm (plugins (pm s))\<rparr>\<rparr>
           in case map_of (disk s1) (path p) of
                Some (Directory t) \<Rightarrow> (Inr True, s1\<lparr>disk := rmtree (path p) (disk s1)\<rparr>)
              | Some (RegularFile f) \<Rightarrow> (Inl (OSError (''Not a directory: '' @ path p)), s1)
              | None \<Rightarrow> (Inl (FileNotFoundError (path p)), s1)))"

text \<open>
  \<^verbatim>\<open>call_hook\<close>: the inner loop over the callbacks of one plugin, the outer loop over
  the snapshot \<^verbatim>\<open>list(self.plugins.values())\<close>.
\<close>

fun call_funcs ::
  "behaviour \<Rightarrow> Plugin \<Rightarrow> string \<Rightarrow> pyval list \<Rightarrow> (string \<times> pyval) list \<Rightarrow> pyval list \<Rightarrow> state
     \<Rightarrow> (exc + unit) \<times> state" where
  "call_funcs beh plugin hook_name args kwargs [] s = (Inr (), s)"
| "call_funcs beh plugin hook_name args kwargs (f # fs) s =
     (let s1 = emit (Invoked (name plugin) hook_name f args kwargs) s
      in case invoke beh f args kwargs of
           Returns \<Rightarrow> call_funcs beh plugin hook_name args kwargs fs s1
         | Raises e \<Rightarrow>
             (if is_Exception e
              then call_funcs beh plugin hook_name args kwargs fs
                     (emit (PrintHookError (name plugin) hook_name e) s1)
              else (Inl e, s1)))"

fun call_plugins ::
  "behaviour \<Rightarrow> string \<Rightarrow> pyval list \<Rightarrow> (string \<times> pyval) list \<Rightarrow> Plugin list \<Rightarrow> state
     \<Rightarrow> (exc + unit) \<times> state" where
  "call_plugins beh hook_name args kwargs [] s = (Inr (), s)"
| "call_plugins beh hook_name args kwargs (plugin # ps) s =
     (case map_of (hooks plugin) hook_name of
        None \<Rightarrow> call_plugins beh hook_name args kwargs ps s
      | Some [] \<Rightarrow> call_plugins beh hook_name args kwargs ps s
      | Some funcs \<Rightarrow>
          (case call_funcs beh plugin hook_name args kwargs funcs s of
             (Inl e, s') \<Rightarrow> (Inl e, s')
           | (Inr u, s') \<Rightarrow> call_plugins beh hook_name args kwargs ps s'))"

definition call_hook ::
  "behaviour \<Rightarrow> string \<Rightarrow> pyval list \<Rightarrow> (string \<times> pyval) list \<Rightarrow> state \<Rightarrow> (exc + unit) \<times> state" where
  "call_hook beh hook_name args kwargs s =
     call_plugins beh hook_name args kwargs (map snd (plugins (pm s))) s"

subsection \<open>Reading a run\<close>

text \<open>Appending to the trace, several events at once.\<close>

definition log :: "event list \<Rightarrow> state \<Rightarrow> state" where
  "log evs s = s\<lparr>trace := trace s @ evs\<rparr>"

text \<open>The callbacks a plugin holds for a hook: \<^verbatim>\<open>plugin.hooks.get(hook_name)\<close>, none when missing.\<close>

definition plugin_funcs :: "Plugin \<Rightarrow> string \<Rightarrow> pyval list" where
  "plugin_funcs p h = (case map_of (hooks p) h of None \<Rightarrow> [] | Some fs \<Rightarrow> fs)"

text \<open>
  What a complete dispatch is expected to leave in the trace: for every plugin in table
  order, for every callback in list order, the call, followed by the printed error when
  the call raised.
\<close>

definition callback_events ::
  "behaviour \<Rightarrow> string \<Rightarrow> string \<Rightarrow> pyval list \<Rightarrow> (string \<times> pyval) list \<Rightarrow> pyval \<Rightarrow> event list" where
  "callback_events beh n h a k f =
     Invoked n h f a k #
       (case invoke beh f a k of Returns \<Rightarrow> [] | Raises e \<Rightarrow> [PrintHookError n h e])"

definition plugin_events ::
  "behaviour \<Rightarrow> string \<Rightarrow> pyval list \<Rightarrow> (string \<times> pyval) list \<Rightarrow> Plugin \<Rightarrow> event list" where
  "plugin_events beh h a k p = concat (map (callback_events beh (name p) h a k) (plugin_funcs p h))"

definition dispatch_events ::
  "behaviour \<Rightarrow> string \<Rightarrow> pyval list \<Rightarrow> (string \<times> pyval) list \<Rightarrow> Plugin list \<Rightarrow> event list" where
  "dispatch_events beh h a k ps = concat (map (plugin_events beh h a k) ps)"

text \<open>A call that returns, or raises an instance of \<^verbatim>\<open>Exception\<close>.\<close>

definition catchable :: "behaviour \<Rightarrow> pyval list \<Rightarrow> (string \<times> pyval) list \<Rightarrow> pyval \<Rightarrow> bool" where
  "catchable beh a k f = (case invoke beh f a k of Returns \<Rightarrow> True | Raises e \<Rightarrow> is_Exception e)"

definition all_catchable ::
  "behaviour \<Rightarrow> string \<Rightarrow> pyval list \<Rightarrow> (string \<times> pyval) list \<Rightarrow> Plugin list \<Rightarrow> bool" where
  "all_catchable beh h a k ps = list_all (\<lambda>p. list_all (catchable beh a k) (plugin_funcs p h)) ps"

text \<open>
  The callbacks of a hook in the order a dispatch meets them, each with the name of its
  plugin; the result and the trace a dispatch is expected to have: the callbacks before
  the first one that raises outside \<^verbatim>\<open>Exception\<close> are called (and their errors printed),
  that one is called and its exception is the result, the ones after it are not called.
  \<open>run_flat\<close> is the single loop over that list which the two nested loops of
  \<open>call_hook\<close> amount to.
\<close>

definition callbacks_of :: "string \<Rightarrow> Plugin list \<Rightarrow> (string \<times> pyval) list" where
  "callbacks_of h ps = concat (map (\<lambda>p. map (\<lambda>f. (name p, f)) (plugin_funcs p h)) ps)"

definition caught :: "behaviour \<Rightarrow> pyval list \<Rightarrow> (string \<times> pyval) list \<Rightarrow> string \<times> pyval \<Rightarrow> bool" where
  "caught beh a k c = catchable beh a k (snd c)"

definition dispatch_result ::
  "behaviour \<Rightarrow> pyval list \<Rightarrow> (string \<times> pyval) list \<Rightarrow> (string \<times> pyval) list \<Rightarrow> exc + unit" where
  "dispatch_result beh a k cs =
     (case dropWhile (caught beh a k) cs of
        [] \<Rightarrow> Inr ()
      | c # rest \<Rightarrow> (case invoke beh (snd c) a k of Raises e \<Rightarrow> Inl e | Returns \<Rightarrow> Inr ()))"

definition dispatch_trace ::
  "behaviour \<Rightarrow> string \<Rightarrow> pyval list \<Rightarrow> (string \<times> pyval) list \<Rightarrow> (string \<times> pyval) list \<Rightarrow> event list" where
  "dispatch_trace beh h a k cs =
     concat (map (\<lambda>c. callback_events beh (fst c) h a k (snd c)) (takeWhile (caught beh a k) cs))
     @ (case dropWhile (caught beh a k) cs of
          [] \<Rightarrow> []
        | c # rest \<Rightarrow> [Invoked (fst c) h (snd c) a k])"

fun run_flat ::
  "behaviour \<Rightarrow> string \<Rightarrow> pyval list \<Rightarrow> (string \<times> pyval) list \<Rightarrow> (string \<times> pyval) list \<Rightarrow> state
     \<Rightarrow> (exc + unit) \<times> state" where
  "run_flat beh h a k [] s = (Inr (), s)"
| "run_flat beh h a k (c # cs) s =
     (let s1 = emit (Invoked (fst c) h (snd c) a k) s
      in case invoke beh (snd c) a k of
           Returns \<Rightarrow> run_flat beh h a k cs s1
         | Raises e \<Rightarrow>
             (if is_Exception e
              then run_flat beh h a k cs (emit (PrintHookError (fst c) h e) s1)
              else (Inl e, s1)))"

text \<open>The calls in a trace that were made for the plugin of a given name.\<close>

fun invoked_by :: "string \<Rightarrow> event \<Rightarrow> bool" where
  "invoked_by n (Invoked n' h f a k) = (n' = n)"
| "invoked_by n ev = False"

text \<open>The callbacks a registration script registers for a hook, in the order of its calls.\<close>

fun registered :: "reg_action list \<Rightarrow> string \<Rightarrow> pyval list" where
  "registered [] h = []"
| "registered (RegisterHook h' f # acts) h = (if h' = h then f # registered acts h else registered acts h)"
| "registered (ReadAppName # acts) h = registered acts h"

text \<open>
  The table of a manager is a dictionary whose keys are the names of its records: the
  keys are pairwise different, and every record is stored under its own name.
\<close>

definition wf_table :: "(string \<times> Plugin) list \<Rightarrow> bool" where
  "wf_table t = (distinct (map fst t) \<and> list_all (\<lambda>(n, p). name p = n) t)"

text \<open>
  The record that a successful load of the directory \<open>p\<close> stores, when the script of
  \<^verbatim>\<open>register\<close> makes the calls \<open>acts\<close> and returns; and the events a step added to the trace.
\<close>

definition loaded_plugin :: "string \<Rightarrow> reg_action list \<Rightarrow> Plugin" where
  "loaded_plugin p acts =
     (api_plugin (foldl run_action
        \<lparr>api_plugin = new_Plugin (path_name p) p, api_manager = \<lparr>plugins = []\<rparr>\<rparr> acts))
     \<lparr>module := Some (Module (Some (RegisterFn acts None)))\<rparr>"

definition new_events :: "state \<Rightarrow> state \<Rightarrow> event list" where
  "new_events s s' = drop (length (trace s)) (trace s')"

text \<open>A manager that has loaded nothing yet, on a given disk.\<close>

definition init_state :: "disk \<Rightarrow> state" where
  "init_state d = \<lparr>pm = \<lparr>plugins = []\<rparr>, disk = d, trace = []\<rparr>"

text \<open>
  What a load of the directory \<open>p\<close> does on a disk, read off a run of
  \<open>load_plugin_from_dir\<close> from the empty table: the error it raises, or the record it
  stores. \<open>store_loaded\<close> is the state after a successful load.
\<close>

definition load_result :: "disk \<Rightarrow> string \<Rightarrow> exc + Plugin" where
  "load_result d p =
     (case load_plugin_from_dir p (init_state d) of
        (Inl e, s') \<Rightarrow> Inl e
      | (Inr u, s') \<Rightarrow>
          (case map_of (plugins (pm s')) (path_name p) of
             Some pl \<Rightarrow> Inr pl
           | None \<Rightarrow> Inl (KeyError (path_name p))))"

definition store_loaded :: "string \<Rightarrow> Plugin \<Rightarrow> state \<Rightarrow> state" where
  "store_loaded p pl s =
     emit (PrintLoaded (path_name p))
       (s\<lparr>pm := (pm s)\<lparr>plugins := AList.update (path_name p) pl (plugins (pm s))\<rparr>\<rparr>)"

text \<open>
  The destination that \<open>install_plugin\<close> computes for an archive, and the state after
  the archive was extracted into a destination that did not exist.
\<close>

definition install_dest :: "disk \<Rightarrow> string \<Rightarrow> string" where
  "install_dest d scpl_path =
     find_free d (stem scpl_path) (joinpath PLUGINS_DIR (stem scpl_path)) 1"

definition extracted :: "tree \<Rightarrow> string \<Rightarrow> state \<Rightarrow> state" where
  "extracted members dest s = s\<lparr>disk := disk s @ [(dest, Directory (write_members members []))]\<rparr>"

text \<open>
  The run of \<open>load_all_plugins\<close>, read off the disk. \<open>plugin_dirs\<close> are the entries of
  the plugins directory that are directories, in the order of \<^verbatim>\<open>iterdir\<close>. A load is
  caught when it succeeds or raises an instance of \<^verbatim>\<open>Exception\<close>. \<open>scan_event\<close> is what the
  loop prints for an entry and \<open>scan_table\<close> the table after the loop went over a list of
  entries; \<open>cleared\<close> is the state with the table emptied, \<open>scanned\<close> the state after the
  loop went over a list of entries, each load caught.
\<close>

definition plugin_dirs :: "disk \<Rightarrow> string list" where
  "plugin_dirs d = filter (is_dir d) (iterdir d PLUGINS_DIR)"

definition loads_caught :: "disk \<Rightarrow> string \<Rightarrow> bool" where
  "loads_caught d p = (case load_result d p of Inl e \<Rightarrow> is_Exception e | Inr pl \<Rightarrow> True)"

definition loaded_ok :: "disk \<Rightarrow> string \<Rightarrow> bool" where
  "loaded_ok d p = (is_dir d p \<and> (case load_result d p of Inl e \<Rightarrow> False | Inr pl \<Rightarrow> True))"

definition scan_event :: "disk \<Rightarrow> string \<Rightarrow> event list" where
  "scan_event d p =
     (if is_dir d p
      then [case load_result d p of
              Inl e \<Rightarrow> PrintFailedLoading p e
            | Inr pl \<Rightarrow> PrintLoaded (path_name p)]
      else [])"

definition scan_events :: "disk \<Rightarrow> string list \<Rightarrow> event list" where
  "scan_events d ps = concat (map (scan_event d) ps)"

fun scan_table :: "disk \<Rightarrow> string list \<Rightarrow> (string \<times> Plugin) list \<Rightarrow> (string \<times> Plugin) list" where
  "scan_table d [] t = t"
| "scan_table d (p # ps) t =
     scan_table d ps
       (if is_dir d p
        then (case load_result d p of Inl e \<Rightarrow> t | Inr pl \<Rightarrow> AList.update (path_name p) pl t)
        else t)"

definition cleared :: "state \<Rightarrow> state" where
  "cleared s = s\<lparr>pm := (pm s)\<lparr>plugins := []\<rparr>\<rparr>"

definition scanned :: "string list \<Rightarrow> state \<Rightarrow> state" where
  "scanned ps s =
     s\<lparr>pm := (pm s)\<lparr>plugins := scan_table (disk s) ps (plugins (pm s))\<rparr>,
       trace := trace s @ scan_events (disk s) ps\<rparr>"

subsection \<open>A sample installation\<close>

text \<open>
  Callable 1 raises an ordinary exception, callable 3 asks the interpreter to exit, every
  other callable returns.
\<close>

definition sample_beh :: behaviour where
  "sample_beh i args kwargs =
     (if i = 1 then Raises (PluginError ''boom'')
      else if i = 3 then Raises SystemExit
      else Returns)"

definition main_file :: "register_fn \<Rightarrow> string \<times> entry_code" where
  "main_file reg = (''plugin-main.py'', Defines (Module (Some reg)))"

text \<open>
  Two plugins that load (\<open>a\<close> and \<open>b\<close>), a text file, and four directories whose load
  fails, each in its own way: no entrypoint, an entrypoint that crashes, a module
  without \<^verbatim>\<open>register\<close>, and a \<^verbatim>\<open>register\<close> that raises after registering a hook.
\<close>

definition sample_disk :: disk where
  "sample_disk =
     [(''plugins/a'', Directory [main_file (RegisterFn
          [RegisterHook ''x'' (FuncVal 1), RegisterHook ''x'' (FuncVal 2)] None)]),
      (''plugins/t.txt'', RegularFile NotZip),
      (''plugins/n'', Directory [(''readme'', Crashes (PluginError ''text''))]),
      (''plugins/c'', Directory [(''plugin-main.py'', Crashes (PluginError ''bad''))]),
      (''plugins/r'', Directory [(''plugin-main.py'', Defines (Module None))]),
      (''plugins/p'', Directory [main_file (RegisterFn
          [RegisterHook ''x'' (FuncVal 5)] (Some (PluginError ''late'')))]),
      (''plugins/b'', Directory [main_file (RegisterFn
          [RegisterHook ''x'' (FuncVal 4), RegisterHook ''y'' (IntVal 7)] None)])]"

definition sample_state :: state where
  "sample_state = snd (load_all_plugins (init_state sample_disk))"

text \<open>
  An installation where the plugin \<open>a\<close> holds a callback that raises an ordinary
  exception, then one that asks the interpreter to exit, then one that returns.
\<close>

definition mixed_disk :: disk where
  "mixed_disk =
     [(''plugins/a'', Directory [main_file (RegisterFn
          [RegisterHook ''x'' (FuncVal 1), RegisterHook ''x'' (FuncVal 3),
           RegisterHook ''x'' (FuncVal 2)] None)]),
      (''plugins/b'', Directory [main_file (RegisterFn
          [RegisterHook ''x'' (FuncVal 4)] None)])]"

definition mixed_state :: state where
  "mixed_state = snd (load_all_plugins (init_state mixed_disk))"

text \<open>An installation where the first callback of the first plugin asks the interpreter to exit.\<close>

definition exit_disk :: disk where
  "exit_disk =
     [(''plugins/e'', Directory [main_file (RegisterFn
          [RegisterHook ''x'' (FuncVal 3), RegisterHook ''x'' (FuncVal 2)] None)]),
      (''plugins/b'', Directory [main_file (RegisterFn
          [RegisterHook ''x'' (FuncVal 4)] None)])]"

definition exit_state :: state where
  "exit_state = snd (load_all_plugins (init_state exit_disk))"

text \<open>
  An installation with a plugin \<open>a\<close>, a directory \<open>a_1\<close> that is no plugin, and
  packages: one that installs, one without entrypoint, one whose \<^verbatim>\<open>register\<close> raises
  after registering a hook, and a file that is no archive.
\<close>

definition install_disk :: disk where
  "install_disk =
     [(''plugins/a'', Directory [main_file (RegisterFn [RegisterHook ''x'' (FuncVal 2)] None)]),
      (''plugins/a_1'', Directory []),
      (''pkg/a.scpl'', RegularFile (Zip
          [main_file (RegisterFn [RegisterHook ''x'' (FuncVal 6)] None),
           (''readme'', Crashes (PluginError ''text''))])),
      (''pkg/z.scpl'', RegularFile (Zip [(''readme'', Crashes (PluginError ''text''))])),
      (''pkg/q.zip'', RegularFile (Zip
          [main_file (RegisterFn [RegisterHook ''x'' (FuncVal 5)] (Some (PluginError ''late'')))])),
      (''pkg/t.txt'', RegularFile NotZip)]"

definition install_state :: state where
  "install_state = snd (load_all_plugins (init_state install_disk))"




definition table_view :: "state \<Rightarrow> (string \<times> string \<times> pyval list) list" where
  "table_view s = map (\<lambda>(n, p). (n, path p, plugin_funcs p ''x'')) (plugins (pm s))"

text \<open>
  A plugins directory with a plugin that loads, a directory without entrypoint, a plugin
  whose entrypoint asks the interpreter to exit, and another plugin that loads.
\<close>

definition exit_load_disk :: disk where
  "exit_load_disk =
     [(''plugins/a'', Directory [main_file (RegisterFn [RegisterHook ''x'' (FuncVal 2)] None)]),
      (''plugins/n'', Directory []),
      (''plugins/k'', Directory [(''plugin-main.py'', Crashes SystemExit)]),
      (''plugins/b'', Directory [main_file (RegisterFn [RegisterHook ''x'' (FuncVal 4)] None)])]"


section \<open>Properties\<close>

subsection \<open>The capability object\<close>

lemma register_hook_hooks:
  "map_of (hooks (api_plugin (register_hook api nm func))) =
     (map_of (hooks (api_plugin api)))
       (nm \<mapsto> (case map_of (hooks (api_plugin api)) nm of None \<Rightarrow> [] | Some fs \<Rightarrow> fs) @ [func])"
  by (cases "map_of (hooks (api_plugin api)) nm")
     (auto simp: register_hook_def Let_def AList.update_conv')

lemma register_hook_manager [simp]:
  "api_manager (register_hook api nm func) = api_manager api"
  by (simp add: register_hook_def Let_def)

text \<open>
  Claim C9. For every hook name and every callback value, callable or not,
  \<open>register_hook\<close> changes nothing but the hook map of the plugin that owns the
  capability object: the result is the old object with only the field \<open>hooks\<close> of its
  plugin replaced, the new map is the old one with the callback appended to the list of
  the name (the empty list when the name was missing), and the manager with its plugin
  table is the same. The model has no error result because the source has no raise and
  no check of the name. \<open>app_name\<close> is the fixed string \<^verbatim>\<open>Scriptor\<close>.
\<close>

theorem register_hook_frame:
  "register_hook api nm func =
     api\<lparr>api_plugin := (api_plugin api)\<lparr>hooks := hooks (api_plugin (register_hook api nm func))\<rparr>\<rparr>
   \<and> map_of (hooks (api_plugin (register_hook api nm func))) =
     (map_of (hooks (api_plugin api)))
       (nm \<mapsto> (case map_of (hooks (api_plugin api)) nm of None \<Rightarrow> [] | Some fs \<Rightarrow> fs) @ [func])
   \<and> api_manager (register_hook api nm func) = api_manager api
   \<and> app_name api = ''Scriptor''"
proof -
  have "register_hook api nm func =
     api\<lparr>api_plugin := (api_plugin api)\<lparr>hooks := hooks (api_plugin (register_hook api nm func))\<rparr>\<rparr>"
    by (simp add: register_hook_def Let_def)
  moreover have "api_manager (register_hook api nm func) = api_manager api"
    by (simp add: register_hook_def Let_def)
  ultimately show ?thesis
    using register_hook_hooks [of api nm func] by (simp add: app_name_def)
qed

subsection \<open>Loading one plugin\<close>

lemma run_action_manager [simp]: "api_manager (run_action api a) = api_manager api"
  by (cases a) (simp_all add: register_hook_def Let_def)

lemma foldl_run_action_manager [simp]:
  "api_manager (foldl run_action api acts) = api_manager api"
  by (induction acts arbitrary: api) simp_all

lemma call_register_manager:
  "call_register reg api = (x, api') \<Longrightarrow> api_manager api' = api_manager api"
  by (cases reg) auto

lemma load_failure_state:
  assumes "fst (load_plugin_from_dir p s) = Inl e"
  shows "snd (load_plugin_from_dir p s) = s"
  using assms
  by (auto simp: load_plugin_from_dir_def Let_def dest!: call_register_manager
      split: option.splits entry_code.splits pymodule.splits prod.splits if_splits)

text \<open>
  Claim C3. A load fails in each of the four ways: the entrypoint \<^verbatim>\<open>plugin-main.py\<close> is
  absent (\<^verbatim>\<open>FileNotFoundError\<close>), executing it raises, the module has no
  \<^verbatim>\<open>register\<close>, or \<^verbatim>\<open>register\<close> raises. Whenever \<open>load_plugin_from_dir\<close> fails, the
  state after it is the state before it: no record is added to the plugin table, and the
  disk, with the directory, is as it was.
\<close>

theorem load_failure_adds_no_record:
  "(main_of (disk s) p = None \<longrightarrow>
      load_plugin_from_dir p s = (Inl (FileNotFoundError (''plugin-main.py missing in '' @ p)), s))
   \<and> (\<forall>e. main_of (disk s) p = Some (Crashes e) \<longrightarrow>
        load_plugin_from_dir p s =
          (Inl (if is_Exception e
                then RuntimeError (''Error executing plugin-main.py: '' @ exc_text e) else e), s))
   \<and> (main_of (disk s) p = Some (Defines (Module None)) \<longrightarrow>
        load_plugin_from_dir p s =
          (Inl (RuntimeError ''plugin-main.py must provide register(api) function''), s))
   \<and> (\<forall>acts e. main_of (disk s) p = Some (Defines (Module (Some (RegisterFn acts (Some e))))) \<longrightarrow>
        load_plugin_from_dir p s =
          (Inl (if is_Exception e
                then RuntimeError (''Plugin register() failed: '' @ exc_text e) else e), s))
   \<and> (\<forall>e. fst (load_plugin_from_dir p s) = Inl e \<longrightarrow>
        plugins (pm (snd (load_plugin_from_dir p s))) = plugins (pm s)
        \<and> disk (snd (load_plugin_from_dir p s)) = disk s
        \<and> snd (load_plugin_from_dir p s) = s)"
proof (intro conjI allI impI)
  fix e assume "fst (load_plugin_from_dir p s) = Inl e"
  then have "snd (load_plugin_from_dir p s) = s" by (rule load_failure_state)
  then show "plugins (pm (snd (load_plugin_from_dir p s))) = plugins (pm s)"
    and "disk (snd (load_plugin_from_dir p s)) = disk s"
    and "snd (load_plugin_from_dir p s) = s" by simp_all
qed (simp_all add: load_plugin_from_dir_def Let_def)

theorem load_failure_adds_no_record_witness:
  "load_plugin_from_dir ''plugins/n'' sample_state =
     (Inl (FileNotFoundError ''plugin-main.py missing in plugins/n''), sample_state)
   \<and> load_plugin_from_dir ''plugins/c'' sample_state =
     (Inl (RuntimeError ''Error executing plugin-main.py: bad''), sample_state)
   \<and> load_plugin_from_dir ''plugins/r'' sample_state =
     (Inl (RuntimeError ''plugin-main.py must provide register(api) function''), sample_state)
   \<and> load_plugin_from_dir ''plugins/p'' sample_state =
     (Inl (RuntimeError ''Plugin register() failed: late''), sample_state)
   \<and> map fst (plugins (pm (snd (load_plugin_from_dir ''plugins/p'' sample_state)))) = [''a'', ''b'']
   \<and> disk (snd (load_plugin_from_dir ''plugins/p'' sample_state)) = sample_disk"
proof -
  have n: "main_of (disk sample_state) ''plugins/n'' = None" by code_simp
  have c: "main_of (disk sample_state) ''plugins/c'' = Some (Crashes (PluginError ''bad''))"
    by code_simp
  have r: "main_of (disk sample_state) ''plugins/r'' = Some (Defines (Module None))"
    by code_simp
  have p: "main_of (disk sample_state) ''plugins/p'' =
      Some (Defines (Module (Some (RegisterFn [RegisterHook ''x'' (FuncVal 5)]
        (Some (PluginError ''late''))))))"
    by code_simp
  have k: "map fst (plugins (pm sample_state)) = [''a'', ''b'']" by code_simp
  have d: "disk sample_state = sample_disk" by code_simp
  have 1: "load_plugin_from_dir ''plugins/n'' sample_state =
     (Inl (FileNotFoundError ''plugin-main.py missing in plugins/n''), sample_state)"
    using load_failure_adds_no_record [of sample_state "''plugins/n''"] n by simp
  have 2: "load_plugin_from_dir ''plugins/c'' sample_state =
     (Inl (RuntimeError ''Error executing plugin-main.py: bad''), sample_state)"
    using load_failure_adds_no_record [of sample_state "''plugins/c''"] c by simp
  have 3: "load_plugin_from_dir ''plugins/r'' sample_state =
     (Inl (RuntimeError ''plugin-main.py must provide register(api) function''), sample_state)"
    using load_failure_adds_no_record [of sample_state "''plugins/r''"] r by simp
  have 4: "load_plugin_from_dir ''plugins/p'' sample_state =
     (Inl (RuntimeError ''Plugin register() failed: late''), sample_state)"
    using load_failure_adds_no_record [of sample_state "''plugins/p''"] p by simp
  from 1 2 3 4 k d show ?thesis by simp
qed

subsection \<open>Uninstalling\<close>

lemma map_of_rmtree_self: "map_of (rmtree p d) p = None"
  by (auto simp: rmtree_def map_of_eq_None_iff)

lemma not_is_dir_rmtree: "\<not> is_dir (rmtree p d) p"
  by (simp add: is_dir_def map_of_rmtree_self)

text \<open>
  Claim C6. When no plugin of the name is loaded, \<open>uninstall_plugin\<close> fails with
  \<^verbatim>\<open>KeyError\<close> and the state, the plugin table and the disk with it, is unchanged. When
  the name is loaded, the record is removed from the table (the other records stay), no
  directory is left at the path of the plugin, and if the directory was there the call
  returns \<^verbatim>\<open>True\<close> and the disk has lost exactly the directory and what was below it.
\<close>

theorem uninstall_plugin_spec:
  "(map_of (plugins (pm s)) nm = None \<longrightarrow>
      uninstall_plugin nm s = (Inl (KeyError nm), s))
   \<and> (\<forall>p. map_of (plugins (pm s)) nm = Some p \<longrightarrow>
        plugins (pm (snd (uninstall_plugin nm s))) = AList.delete nm (plugins (pm s))
        \<and> map_of (plugins (pm (snd (uninstall_plugin nm s)))) nm = None
        \<and> \<not> is_dir (disk (snd (uninstall_plugin nm s))) (path p)
        \<and> (is_dir (disk s) (path p) \<longrightarrow>
             fst (uninstall_plugin nm s) = Inr True
             \<and> disk (snd (uninstall_plugin nm s)) = rmtree (path p) (disk s)
             \<and> list_all (\<lambda>(k, n). k \<noteq> path p \<and> \<not> below (path p) k)
                  (disk (snd (uninstall_plugin nm s)))))"
proof (intro conjI allI impI)
  assume "map_of (plugins (pm s)) nm = None"
  then show "uninstall_plugin nm s = (Inl (KeyError nm), s)"
    by (simp add: uninstall_plugin_def)
next
  fix p assume p: "map_of (plugins (pm s)) nm = Some p"
  then show "plugins (pm (snd (uninstall_plugin nm s))) = AList.delete nm (plugins (pm s))"
    by (simp add: uninstall_plugin_def Let_def split: option.splits node.splits)
  then show "map_of (plugins (pm (snd (uninstall_plugin nm s)))) nm = None"
    by (simp add: AList.delete_conv')
  from p show "\<not> is_dir (disk (snd (uninstall_plugin nm s))) (path p)"
    by (auto simp: uninstall_plugin_def Let_def map_of_rmtree_self is_dir_def
        split: option.splits node.splits)
next
  fix p assume p: "map_of (plugins (pm s)) nm = Some p" and d: "is_dir (disk s) (path p)"
  from p d show "fst (uninstall_plugin nm s) = Inr True"
    by (auto simp: uninstall_plugin_def Let_def is_dir_def split: option.splits node.splits)
  from p d show r: "disk (snd (uninstall_plugin nm s)) = rmtree (path p) (disk s)"
    by (auto simp: uninstall_plugin_def Let_def is_dir_def split: option.splits node.splits)
  show "list_all (\<lambda>(k, n). k \<noteq> path p \<and> \<not> below (path p) k)
                  (disk (snd (uninstall_plugin nm s)))"
    unfolding r by (auto simp: rmtree_def list_all_iff)
qed

theorem uninstall_plugin_spec_witness:
  "uninstall_plugin ''ghost'' sample_state = (Inl (KeyError ''ghost''), sample_state)
   \<and> fst (uninstall_plugin ''a'' sample_state) = Inr True
   \<and> map fst (plugins (pm (snd (uninstall_plugin ''a'' sample_state)))) = [''b'']
   \<and> \<not> is_dir (disk (snd (uninstall_plugin ''a'' sample_state))) ''plugins/a''
   \<and> disk (snd (uninstall_plugin ''a'' sample_state)) = tl sample_disk"
proof -
  have g: "map_of (plugins (pm sample_state)) ''ghost'' = None" by code_simp
  have a: "map_of (plugins (pm sample_state)) ''a'' =
      Some \<lparr>name = ''a'', path = ''plugins/a'',
            module = Some (Module (Some (RegisterFn
              [RegisterHook ''x'' (FuncVal 1), RegisterHook ''x'' (FuncVal 2)] None))),
            hooks = [(''x'', [FuncVal 1, FuncVal 2])]\<rparr>"
    by code_simp
  have d: "is_dir (disk sample_state) ''plugins/a''" by code_simp
  have k: "map fst (AList.delete ''a'' (plugins (pm sample_state))) = [''b'']" by code_simp
  have r: "rmtree ''plugins/a'' (disk sample_state) = tl sample_disk" by code_simp
  note u = uninstall_plugin_spec [of sample_state "''a''"]
  from uninstall_plugin_spec [of sample_state "''ghost''"] g
  have 1: "uninstall_plugin ''ghost'' sample_state = (Inl (KeyError ''ghost''), sample_state)"
    by simp
  from u a d have 2: "fst (uninstall_plugin ''a'' sample_state) = Inr True"
    by simp
  from u a k have 3: "map fst (plugins (pm (snd (uninstall_plugin ''a'' sample_state)))) = [''b'']"
    by simp
  from u a have 4: "\<not> is_dir (disk (snd (uninstall_plugin ''a'' sample_state))) ''plugins/a''"
    by simp
  from u a d r have 5: "disk (snd (uninstall_plugin ''a'' sample_state)) = tl sample_disk"
    by simp
  show ?thesis by (intro conjI 1 2 3 4 5)
qed

subsection \<open>Dispatching a hook\<close>

lemma log_Nil [simp]: "log [] s = s"
  by (simp add: log_def)

lemma log_log [simp]: "log ys (log xs s) = log (xs @ ys) s"
  by (simp add: log_def)

lemma emit_log: "emit ev s = log [ev] s"
  by (simp add: emit_def log_def)

lemma call_funcs_catchable:
  "list_all (catchable beh a k) fs \<Longrightarrow>
   call_funcs beh p h a k fs s =
     (Inr (), log (concat (map (callback_events beh (name p) h a k) fs)) s)"
proof (induction fs arbitrary: s)
  case Nil
  then show ?case by simp
next
  case (Cons f fs)
  then show ?case
    by (cases "invoke beh f a k")
       (simp_all add: catchable_def callback_events_def emit_log)
qed

lemma call_plugins_catchable:
  "all_catchable beh h a k ps \<Longrightarrow>
   call_plugins beh h a k ps s = (Inr (), log (dispatch_events beh h a k ps) s)"
proof (induction ps arbitrary: s)
  case Nil
  then show ?case by (simp add: dispatch_events_def)
next
  case (Cons p ps)
  from Cons.prems have ps: "all_catchable beh h a k ps"
    and fs: "list_all (catchable beh a k) (plugin_funcs p h)"
    by (simp_all add: all_catchable_def)
  show ?case
  proof (cases "map_of (hooks p) h")
    case None
    then show ?thesis
      using Cons.IH [OF ps] by (simp add: dispatch_events_def plugin_events_def plugin_funcs_def)
  next
    case (Some funcs)
    then have pf: "plugin_funcs p h = funcs" by (simp add: plugin_funcs_def)
    show ?thesis
    proof (cases funcs)
      case Nil
      with Some pf show ?thesis
        using Cons.IH [OF ps] by (simp add: dispatch_events_def plugin_events_def)
    next
      case nonempty: (Cons g gs)
      from fs pf have "call_funcs beh p h a k funcs s =
          (Inr (), log (plugin_events beh h a k p) s)"
        by (simp add: call_funcs_catchable plugin_events_def)
      with Some nonempty show ?thesis
        using Cons.IH [OF ps] by (simp add: dispatch_events_def)
    qed
  qed
qed

lemma call_funcs_propagates:
  "fst (call_funcs beh p h a k fs s) = Inl e \<Longrightarrow>
   \<not> is_Exception e \<and> (\<exists>f\<in>set fs. invoke beh f a k = Raises e)"
proof (induction fs arbitrary: s)
  case Nil
  then show ?case by simp
next
  case (Cons f fs)
  then show ?case
    by (cases "invoke beh f a k") (auto simp: Let_def split: if_splits)
qed

lemma call_plugins_propagates:
  "fst (call_plugins beh h a k ps s) = Inl e \<Longrightarrow>
   \<not> is_Exception e \<and> (\<exists>p\<in>set ps. \<exists>f\<in>set (plugin_funcs p h). invoke beh f a k = Raises e)"
proof (induction ps arbitrary: s)
  case Nil
  then show ?case by simp
next
  case (Cons p ps)
  show ?case
  proof (cases "map_of (hooks p) h")
    case None
    with Cons show ?thesis by auto
  next
    case (Some funcs)
    show ?thesis
    proof (cases funcs)
      case Nil
      with Some Cons show ?thesis by auto
    next
      case nonempty: (Cons g gs)
      obtain r s' where r: "call_funcs beh p h a k funcs s = (r, s')"
        by (cases "call_funcs beh p h a k funcs s")
      show ?thesis
      proof (cases r)
        case (Inl e')
        with r Some nonempty Cons.prems have "e' = e" by simp
        with r Inl call_funcs_propagates [of beh p h a k funcs s e] Some
        show ?thesis by (auto simp: plugin_funcs_def)
      next
        case (Inr u)
        with r Some nonempty Cons.prems Cons.IH [of s'] show ?thesis by auto
      qed
    qed
  qed
qed


lemma call_hook_catchable:
  "all_catchable beh h a k (map snd (plugins (pm s))) \<Longrightarrow>
   call_hook beh h a k s = (Inr (), log (dispatch_events beh h a k (map snd (plugins (pm s)))) s)"
  by (simp add: call_hook_def call_plugins_catchable)

lemma call_funcs_flat:
  "call_funcs beh p h a k fs s = run_flat beh h a k (map (\<lambda>f. (name p, f)) fs) s"
  by (induction fs arbitrary: s) (simp_all add: Let_def split: outcome.splits)

lemma run_flat_append:
  "run_flat beh h a k (xs @ ys) s =
     (case run_flat beh h a k xs s of
        (Inl e, s') \<Rightarrow> (Inl e, s')
      | (Inr u, s') \<Rightarrow> run_flat beh h a k ys s')"
  by (induction xs arbitrary: s) (simp_all add: Let_def split: outcome.splits)

lemma call_plugins_flat:
  "call_plugins beh h a k ps s = run_flat beh h a k (callbacks_of h ps) s"
proof (induction ps arbitrary: s)
  case Nil
  then show ?case by (simp add: callbacks_of_def)
next
  case (Cons p ps)
  have split: "callbacks_of h (p # ps) =
      map (\<lambda>f. (name p, f)) (plugin_funcs p h) @ callbacks_of h ps"
    by (simp add: callbacks_of_def)
  show ?case
  proof (cases "map_of (hooks p) h")
    case None
    with Cons show ?thesis by (simp add: split plugin_funcs_def)
  next
    case (Some funcs)
    then have pf: "plugin_funcs p h = funcs" by (simp add: plugin_funcs_def)
    show ?thesis
    proof (cases funcs)
      case Nil
      with Some pf Cons show ?thesis by (simp add: split)
    next
      case nonempty: (Cons g gs)
      with Some have "call_plugins beh h a k (p # ps) s =
          (case call_funcs beh p h a k funcs s of
             (Inl e, s') \<Rightarrow> (Inl e, s')
           | (Inr u, s') \<Rightarrow> call_plugins beh h a k ps s')"
        by (simp del: call_funcs.simps)
      also have "\<dots> =
          (case run_flat beh h a k (map (\<lambda>f. (name p, f)) funcs) s of
             (Inl e, s') \<Rightarrow> (Inl e, s')
           | (Inr u, s') \<Rightarrow> run_flat beh h a k (callbacks_of h ps) s')"
        by (simp only: call_funcs_flat Cons.IH)
      also have "\<dots> = run_flat beh h a k (callbacks_of h (p # ps)) s"
        by (simp only: split pf run_flat_append)
      finally show ?thesis .
    qed
  qed
qed

lemma log_emit: "emit ev (log evs s) = log (evs @ [ev]) s"
  by (simp add: emit_def log_def)

lemma run_flat_spec:
  "run_flat beh h a k cs s = (dispatch_result beh a k cs, log (dispatch_trace beh h a k cs) s)"
proof (induction cs arbitrary: s)
  case Nil
  then show ?case by (simp add: dispatch_result_def dispatch_trace_def)
next
  case (Cons c cs)
  show ?case
  proof (cases "invoke beh (snd c) a k")
    case Returns
    then have c: "caught beh a k c" by (simp add: caught_def catchable_def)
    with Returns Cons show ?thesis
      by (simp add: dispatch_result_def dispatch_trace_def callback_events_def emit_log)
  next
    case (Raises e)
    show ?thesis
    proof (cases "is_Exception e")
      case True
      with Raises have c: "caught beh a k c" by (simp add: caught_def catchable_def)
      with Raises True Cons show ?thesis
        by (simp add: dispatch_result_def dispatch_trace_def callback_events_def emit_log)
    next
      case False
      with Raises have c: "\<not> caught beh a k c" by (simp add: caught_def catchable_def)
      with Raises False show ?thesis
        by (simp add: dispatch_result_def dispatch_trace_def emit_log)
    qed
  qed
qed

lemma call_hook_exact:
  "call_hook beh h a k s =
     (dispatch_result beh a k (callbacks_of h (map snd (plugins (pm s)))),
      log (dispatch_trace beh h a k (callbacks_of h (map snd (plugins (pm s))))) s)"
  by (simp add: call_hook_def call_plugins_flat run_flat_spec)

lemma takeWhile_all: "list_all P xs \<Longrightarrow> takeWhile P xs = xs"
  by (simp add: list_all_iff)

lemma dropWhile_all: "list_all P xs \<Longrightarrow> dropWhile P xs = []"
  by (simp add: list_all_iff)

lemma takeWhile_stop: "list_all P pre \<Longrightarrow> \<not> P c \<Longrightarrow> takeWhile P (pre @ c # post) = pre"
  by (simp add: list_all_iff takeWhile_append2)

lemma dropWhile_stop: "list_all P pre \<Longrightarrow> \<not> P c \<Longrightarrow> dropWhile P (pre @ c # post) = c # post"
  by (simp add: list_all_iff dropWhile_append2)

lemma dispatch_result_Inl:
  "dispatch_result beh a k cs = Inl e \<Longrightarrow>
   \<not> is_Exception e \<and> (\<exists>c\<in>set cs. invoke beh (snd c) a k = Raises e)"
proof -
  assume r: "dispatch_result beh a k cs = Inl e"
  show ?thesis
  proof (cases "dropWhile (caught beh a k) cs")
    case Nil
    with r show ?thesis by (simp add: dispatch_result_def)
  next
    case (Cons c rest)
    then have "c \<in> set (dropWhile (caught beh a k) cs)" by simp
    then have m: "c \<in> set cs" by (rule set_dropWhileD)
    from Cons have "\<not> caught beh a k c"
      using hd_dropWhile [of "caught beh a k" cs] by simp
    with r Cons m show ?thesis
      by (cases "invoke beh (snd c) a k")
         (auto simp: dispatch_result_def caught_def catchable_def)
  qed
qed

text \<open>
  Claim C1, as the code has it. \<^verbatim>\<open>call_hook\<close> catches with \<^verbatim>\<open>except Exception\<close>. When
  every callback of the hook returns or raises an instance of \<^verbatim>\<open>Exception\<close>,
  \<open>call_hook\<close> returns normally and the trace grows by exactly this: every callback of
  every plugin is called, in order, and each call that raised is followed by the printed
  error with the name of its plugin and the name of the hook. When a callback raises an
  exception that is not an instance of \<^verbatim>\<open>Exception\<close>, and the callbacks before it return
  or raise instances of \<^verbatim>\<open>Exception\<close>, then the callbacks before it are called and their
  errors printed, it is called, its exception is the result of \<open>call_hook\<close>, and no
  callback after it is called. An exception leaves \<open>call_hook\<close> only when it is not an
  instance of \<^verbatim>\<open>Exception\<close> and a callback of the hook raised it.
\<close>

theorem call_hook_isolates_Exception:
  "(list_all (caught beh a k) (callbacks_of h (map snd (plugins (pm s)))) \<longrightarrow>
      call_hook beh h a k s =
        (Inr (),
         log (concat (map (\<lambda>c. callback_events beh (fst c) h a k (snd c))
                (callbacks_of h (map snd (plugins (pm s)))))) s))
   \<and> (\<forall>pre c post e.
         callbacks_of h (map snd (plugins (pm s))) = pre @ c # post
         \<and> list_all (caught beh a k) pre
         \<and> invoke beh (snd c) a k = Raises e \<and> \<not> is_Exception e \<longrightarrow>
        call_hook beh h a k s =
          (Inl e,
           log (concat (map (\<lambda>c. callback_events beh (fst c) h a k (snd c)) pre)
                @ [Invoked (fst c) h (snd c) a k]) s))
   \<and> (\<forall>e. fst (call_hook beh h a k s) = Inl e \<longrightarrow>
        \<not> is_Exception e
        \<and> (\<exists>c\<in>set (callbacks_of h (map snd (plugins (pm s)))).
              invoke beh (snd c) a k = Raises e))"
proof (intro conjI allI impI)
  let ?cs = "callbacks_of h (map snd (plugins (pm s)))"
  assume "list_all (caught beh a k) ?cs"
  then show "call_hook beh h a k s =
      (Inr (), log (concat (map (\<lambda>c. callback_events beh (fst c) h a k (snd c)) ?cs)) s)"
    by (simp add: call_hook_exact dispatch_result_def dispatch_trace_def
        takeWhile_all dropWhile_all)
next
  fix pre c post e
  assume "callbacks_of h (map snd (plugins (pm s))) = pre @ c # post
         \<and> list_all (caught beh a k) pre
         \<and> invoke beh (snd c) a k = Raises e \<and> \<not> is_Exception e"
  then have cs: "callbacks_of h (map snd (plugins (pm s))) = pre @ c # post"
    and pre: "list_all (caught beh a k) pre"
    and e: "invoke beh (snd c) a k = Raises e" "\<not> is_Exception e" by simp_all
  from e have c: "\<not> caught beh a k c" by (simp add: caught_def catchable_def)
  show "call_hook beh h a k s =
      (Inl e, log (concat (map (\<lambda>c. callback_events beh (fst c) h a k (snd c)) pre)
                @ [Invoked (fst c) h (snd c) a k]) s)"
    by (simp add: call_hook_exact cs dispatch_result_def dispatch_trace_def
        takeWhile_stop [OF pre c] dropWhile_stop [OF pre c] e)
next
  fix e assume "fst (call_hook beh h a k s) = Inl e"
  then have "dispatch_result beh a k (callbacks_of h (map snd (plugins (pm s)))) = Inl e"
    by (simp add: call_hook_exact)
  from dispatch_result_Inl [OF this]
  show "\<not> is_Exception e"
    and "\<exists>c\<in>set (callbacks_of h (map snd (plugins (pm s)))). invoke beh (snd c) a k = Raises e"
    by simp_all
qed

theorem call_hook_isolates_Exception_witness:
  "callbacks_of ''x'' (map snd (plugins (pm sample_state))) =
     [(''a'', FuncVal 1), (''a'', FuncVal 2), (''b'', FuncVal 4)]
   \<and> call_hook sample_beh ''x'' [StrVal ''f''] [] sample_state =
      (Inr (),
       log [Invoked ''a'' ''x'' (FuncVal 1) [StrVal ''f''] [],
            PrintHookError ''a'' ''x'' (PluginError ''boom''),
            Invoked ''a'' ''x'' (FuncVal 2) [StrVal ''f''] [],
            Invoked ''b'' ''x'' (FuncVal 4) [StrVal ''f''] []] sample_state)
   \<and> callbacks_of ''x'' (map snd (plugins (pm mixed_state))) =
     [(''a'', FuncVal 1), (''a'', FuncVal 3), (''a'', FuncVal 2), (''b'', FuncVal 4)]
   \<and> call_hook sample_beh ''x'' [StrVal ''f''] [] mixed_state =
      (Inl SystemExit,
       log [Invoked ''a'' ''x'' (FuncVal 1) [StrVal ''f''] [],
            PrintHookError ''a'' ''x'' (PluginError ''boom''),
            Invoked ''a'' ''x'' (FuncVal 3) [StrVal ''f''] []] mixed_state)
   \<and> \<not> is_Exception SystemExit"
proof -
  let ?a = "[StrVal ''f'']"
  have cs: "callbacks_of ''x'' (map snd (plugins (pm sample_state))) =
     [(''a'', FuncVal 1), (''a'', FuncVal 2), (''b'', FuncVal 4)]" by code_simp
  have cm: "callbacks_of ''x'' (map snd (plugins (pm mixed_state))) =
     [(''a'', FuncVal 1)] @ (''a'', FuncVal 3) # [(''a'', FuncVal 2), (''b'', FuncVal 4)]"
    by code_simp
  have all: "list_all (caught sample_beh ?a []) [(''a'', FuncVal 1), (''a'', FuncVal 2), (''b'', FuncVal 4)]"
    by code_simp
  have pre: "list_all (caught sample_beh ?a []) [(''a'', FuncVal 1)]" by code_simp
  have i3: "invoke sample_beh (snd (''a'', FuncVal 3)) ?a [] = Raises SystemExit" by code_simp
  have ne: "\<not> is_Exception SystemExit" by simp
  have ev1: "concat (map (\<lambda>c. callback_events sample_beh (fst c) ''x'' ?a [] (snd c))
        [(''a'', FuncVal 1), (''a'', FuncVal 2), (''b'', FuncVal 4)]) =
      [Invoked ''a'' ''x'' (FuncVal 1) ?a [],
       PrintHookError ''a'' ''x'' (PluginError ''boom''),
       Invoked ''a'' ''x'' (FuncVal 2) ?a [],
       Invoked ''b'' ''x'' (FuncVal 4) ?a []]" by code_simp
  have ev2: "concat (map (\<lambda>c. callback_events sample_beh (fst c) ''x'' ?a [] (snd c))
        [(''a'', FuncVal 1)]) @ [Invoked (fst (''a'', FuncVal 3)) ''x'' (snd (''a'', FuncVal 3)) ?a []] =
      [Invoked ''a'' ''x'' (FuncVal 1) ?a [],
       PrintHookError ''a'' ''x'' (PluginError ''boom''),
       Invoked ''a'' ''x'' (FuncVal 3) ?a []]" by code_simp
  note ts = call_hook_isolates_Exception [of sample_beh ?a "[]" "''x''" sample_state, unfolded cs]
  note tm = call_hook_isolates_Exception [of sample_beh ?a "[]" "''x''" mixed_state]
  from ts all have "call_hook sample_beh ''x'' ?a [] sample_state =
      (Inr (), log (concat (map (\<lambda>c. callback_events sample_beh (fst c) ''x'' ?a [] (snd c))
        [(''a'', FuncVal 1), (''a'', FuncVal 2), (''b'', FuncVal 4)])) sample_state)"
    by blast
  then have 2: "call_hook sample_beh ''x'' ?a [] sample_state =
      (Inr (),
       log [Invoked ''a'' ''x'' (FuncVal 1) ?a [],
            PrintHookError ''a'' ''x'' (PluginError ''boom''),
            Invoked ''a'' ''x'' (FuncVal 2) ?a [],
            Invoked ''b'' ''x'' (FuncVal 4) ?a []] sample_state)"
    by (simp only: ev1)
  from tm cm pre i3 ne have "call_hook sample_beh ''x'' ?a [] mixed_state =
      (Inl SystemExit,
       log (concat (map (\<lambda>c. callback_events sample_beh (fst c) ''x'' ?a [] (snd c))
              [(''a'', FuncVal 1)])
            @ [Invoked (fst (''a'', FuncVal 3)) ''x'' (snd (''a'', FuncVal 3)) ?a []]) mixed_state)"
    by blast
  then have 4: "call_hook sample_beh ''x'' ?a [] mixed_state =
      (Inl SystemExit,
       log [Invoked ''a'' ''x'' (FuncVal 1) ?a [],
            PrintHookError ''a'' ''x'' (PluginError ''boom''),
            Invoked ''a'' ''x'' (FuncVal 3) ?a []] mixed_state)"
    by (simp only: ev2)
  from cm have 3: "callbacks_of ''x'' (map snd (plugins (pm mixed_state))) =
     [(''a'', FuncVal 1), (''a'', FuncVal 3), (''a'', FuncVal 2), (''b'', FuncVal 4)]"
    by simp
  show ?thesis by (intro conjI cs 2 3 4 ne)
qed

text \<open>
  The claim as stated, that no exception of a callback ever leaves \<open>call_hook\<close> and that
  the remaining callbacks still run, fails for \<^verbatim>\<open>SystemExit\<close>: the exception
  propagates, and neither the second callback of the same plugin nor the callback of the
  other plugin is called.
\<close>

theorem call_hook_propagates_SystemExit:
  "fst (call_hook sample_beh ''x'' [StrVal ''f''] [] exit_state) = Inl SystemExit
   \<and> map (\<lambda>(n, p). (n, plugin_funcs p ''x'')) (plugins (pm exit_state)) =
       [(''e'', [FuncVal 3, FuncVal 2]), (''b'', [FuncVal 4])]
   \<and> drop (length (trace exit_state))
        (trace (snd (call_hook sample_beh ''x'' [StrVal ''f''] [] exit_state))) =
       [Invoked ''e'' ''x'' (FuncVal 3) [StrVal ''f''] []]"
  by code_simp

subsection \<open>Which callbacks a dispatch calls\<close>

lemma new_events_log [simp]: "new_events s (log evs s) = evs"
  by (simp add: new_events_def log_def)

lemma filter_callback_events:
  "filter (invoked_by n) (callback_events beh m h a k f) = (if m = n then [Invoked m h f a k] else [])"
  by (cases "invoke beh f a k") (simp_all add: callback_events_def)

lemma filter_callbacks:
  "filter (invoked_by n) (concat (map (callback_events beh m h a k) fs)) =
     (if m = n then map (\<lambda>f. Invoked n h f a k) fs else [])"
  by (induction fs) (simp_all add: filter_callback_events)

lemma filter_plugin_events:
  "filter (invoked_by n) (plugin_events beh h a k p) =
     (if name p = n then map (\<lambda>f. Invoked n h f a k) (plugin_funcs p h) else [])"
  by (simp add: plugin_events_def filter_callbacks)

lemma filter_dispatch_other:
  "n \<notin> name ` set ps \<Longrightarrow> filter (invoked_by n) (dispatch_events beh h a k ps) = []"
  by (induction ps) (auto simp: dispatch_events_def filter_plugin_events)

lemma filter_dispatch_events:
  "distinct (map name ps) \<Longrightarrow> p \<in> set ps \<Longrightarrow>
   filter (invoked_by (name p)) (dispatch_events beh h a k ps) =
     map (\<lambda>f. Invoked (name p) h f a k) (plugin_funcs p h)"
proof (induction ps)
  case Nil
  then show ?case by simp
next
  case (Cons q qs)
  have split: "dispatch_events beh h a k (q # qs) =
      plugin_events beh h a k q @ dispatch_events beh h a k qs"
    by (simp add: dispatch_events_def)
  show ?case
  proof (cases "p = q")
    case True
    with Cons.prems have "name p \<notin> name ` set qs" by auto
    then have "filter (invoked_by (name p)) (dispatch_events beh h a k qs) = []"
      by (rule filter_dispatch_other)
    with True show ?thesis by (simp add: split filter_plugin_events)
  next
    case False
    with Cons.prems have p: "p \<in> set qs" and d: "distinct (map name qs)" by auto
    from p Cons.prems have "name q \<noteq> name p" by auto
    with Cons.IH [OF d p] show ?thesis by (simp add: split filter_plugin_events)
  qed
qed

lemma wf_table_names: "wf_table t \<Longrightarrow> map name (map snd t) = map fst t"
  by (induction t) (auto simp: wf_table_def)

lemma wf_table_lookup:
  "wf_table t \<Longrightarrow> map_of t n = Some pl \<Longrightarrow> pl \<in> set (map snd t) \<and> name pl = n"
  by (auto simp: wf_table_def list_all_iff dest!: map_of_SomeD intro: rev_image_eqI)

lemma list_all_update:
  "list_all P t \<Longrightarrow> P (n, v) \<Longrightarrow> list_all P (AList.update n v t)"
  by (induction t) auto

lemma wf_table_update:
  "wf_table t \<Longrightarrow> name pl = n \<Longrightarrow> wf_table (AList.update n pl t)"
  by (simp add: wf_table_def AList.distinct_update list_all_update)

lemma wf_table_delete: "wf_table t \<Longrightarrow> wf_table (AList.delete n t)"
proof -
  assume w: "wf_table t"
  then have "distinct (map fst (AList.delete n t))"
    by (simp add: wf_table_def AList.distinct_delete)
  moreover from w have "list_all (\<lambda>(n, p). name p = n) (AList.delete n t)"
    by (auto simp: wf_table_def list_all_iff AList.delete_eq)
  ultimately show ?thesis by (simp add: wf_table_def)
qed

lemma wf_table_Nil [simp]: "wf_table []"
  by (simp add: wf_table_def)

lemma plugin_funcs_register_hook:
  "plugin_funcs (api_plugin (register_hook api nm f)) h =
     (if h = nm then plugin_funcs (api_plugin api) h @ [f] else plugin_funcs (api_plugin api) h)"
  by (simp add: plugin_funcs_def register_hook_hooks split: option.splits)

lemma register_hook_name_path [simp]:
  "name (api_plugin (register_hook api nm f)) = name (api_plugin api)"
  "path (api_plugin (register_hook api nm f)) = path (api_plugin api)"
  by (simp_all add: register_hook_def Let_def split: option.splits)

lemma script_name_path [simp]:
  "name (api_plugin (foldl run_action api acts)) = name (api_plugin api)"
  "path (api_plugin (foldl run_action api acts)) = path (api_plugin api)"
proof (induction acts arbitrary: api)
  case Nil
  { case 1 show ?case by simp }
  { case 2 show ?case by simp }
next
  case (Cons x acts)
  { case 1 show ?case using Cons.IH(1) by (cases x) simp_all }
  { case 2 show ?case using Cons.IH(2) by (cases x) simp_all }
qed

lemma plugin_funcs_script:
  "plugin_funcs (api_plugin (foldl run_action api acts)) h =
     plugin_funcs (api_plugin api) h @ registered acts h"
proof (induction acts arbitrary: api)
  case Nil
  then show ?case by simp
next
  case (Cons x acts)
  then show ?case by (cases x) (simp_all add: plugin_funcs_register_hook)
qed

lemma run_action_plugin_cong:
  "api_plugin api = api_plugin api' \<Longrightarrow>
   api_plugin (run_action api x) = api_plugin (run_action api' x)"
  by (cases x) (simp_all add: register_hook_def Let_def)

lemma script_plugin_cong:
  "api_plugin api = api_plugin api' \<Longrightarrow>
   api_plugin (foldl run_action api acts) = api_plugin (foldl run_action api' acts)"
proof (induction acts arbitrary: api api')
  case Nil
  then show ?case by simp
next
  case (Cons x acts)
  from Cons.prems have "api_plugin (run_action api x) = api_plugin (run_action api' x)"
    by (rule run_action_plugin_cong)
  from Cons.IH [OF this] show ?case by simp
qed

lemma load_success:
  assumes "main_of (disk s) p = Some (Defines (Module (Some (RegisterFn acts None))))"
  shows "load_plugin_from_dir p s =
     (Inr (), emit (PrintLoaded (path_name p))
        (s\<lparr>pm := (pm s)\<lparr>plugins := AList.update (path_name p) (loaded_plugin p acts)
                                     (plugins (pm s))\<rparr>\<rparr>))"
proof -
  have "api_plugin (foldl run_action
          \<lparr>api_plugin = new_Plugin (path_name p) p, api_manager = pm s\<rparr> acts) =
        api_plugin (foldl run_action
          \<lparr>api_plugin = new_Plugin (path_name p) p, api_manager = \<lparr>plugins = []\<rparr>\<rparr> acts)"
    by (rule script_plugin_cong) simp
  with assms show ?thesis
    by (simp add: load_plugin_from_dir_def Let_def loaded_plugin_def)
qed

lemma plugin_funcs_module [simp]: "plugin_funcs (pl\<lparr>module := m\<rparr>) h = plugin_funcs pl h"
  by (simp add: plugin_funcs_def)

lemma plugin_funcs_new [simp]: "plugin_funcs (new_Plugin n p) h = []"
  by (simp add: plugin_funcs_def new_Plugin_def)

lemma loaded_plugin_fields [simp]:
  "name (loaded_plugin p acts) = path_name p"
  "path (loaded_plugin p acts) = p"
  "plugin_funcs (loaded_plugin p acts) h = registered acts h"
  by (simp_all add: loaded_plugin_def plugin_funcs_script) (simp_all add: new_Plugin_def)

lemma call_hook_invocations:
  assumes wf: "wf_table (plugins (pm s))"
    and ok: "all_catchable beh h a k (map snd (plugins (pm s)))"
    and pl: "map_of (plugins (pm s)) n = Some pl"
  shows "filter (invoked_by n) (new_events s (snd (call_hook beh h a k s))) =
     map (\<lambda>f. Invoked n h f a k) (plugin_funcs pl h)"
proof -
  from wf have "distinct (map fst (plugins (pm s)))"
    by (simp add: wf_table_def)
  then have d: "distinct (map name (map snd (plugins (pm s))))"
    by (simp only: wf_table_names [OF wf])
  from wf_table_lookup [OF wf pl] have m: "pl \<in> set (map snd (plugins (pm s)))"
    and n: "name pl = n" by simp_all
  from filter_dispatch_events [OF d m] n
  show ?thesis by (simp add: call_hook_catchable [OF ok])
qed

text \<open>
  Claim C2, as the code has it. In a table that is a dictionary by name, when every
  callback of the hook returns or raises an instance of \<^verbatim>\<open>Exception\<close>, \<open>call_hook\<close>
  returns normally and, for every loaded plugin, the calls it made for that plugin are
  exactly the callbacks the plugin holds for the hook, each once, in list order, with the
  arguments given; a plugin that holds none is skipped without error. A load that
  succeeds stores the record whose callbacks for a hook are the ones \<^verbatim>\<open>register\<close>
  registered for it, in the order of registration, and keeps the table a dictionary by
  name.
\<close>

theorem call_hook_invokes_registered:
  "(wf_table (plugins (pm s)) \<and> all_catchable beh h a k (map snd (plugins (pm s))) \<longrightarrow>
      fst (call_hook beh h a k s) = Inr ()
      \<and> (\<forall>n pl. map_of (plugins (pm s)) n = Some pl \<longrightarrow>
            filter (invoked_by n) (new_events s (snd (call_hook beh h a k s))) =
              map (\<lambda>f. Invoked n h f a k) (plugin_funcs pl h)))
   \<and> (main_of (disk s) p = Some (Defines (Module (Some (RegisterFn acts None)))) \<longrightarrow>
        fst (load_plugin_from_dir p s) = Inr ()
        \<and> map_of (plugins (pm (snd (load_plugin_from_dir p s)))) (path_name p) =
            Some (loaded_plugin p acts)
        \<and> plugin_funcs (loaded_plugin p acts) h = registered acts h
        \<and> (wf_table (plugins (pm s)) \<longrightarrow> wf_table (plugins (pm (snd (load_plugin_from_dir p s))))))"
proof (intro conjI allI impI)
  assume "wf_table (plugins (pm s)) \<and> all_catchable beh h a k (map snd (plugins (pm s)))"
  then show "fst (call_hook beh h a k s) = Inr ()"
    by (simp add: call_hook_catchable)
next
  fix n pl
  assume "wf_table (plugins (pm s)) \<and> all_catchable beh h a k (map snd (plugins (pm s)))"
    and "map_of (plugins (pm s)) n = Some pl"
  then show "filter (invoked_by n) (new_events s (snd (call_hook beh h a k s))) =
      map (\<lambda>f. Invoked n h f a k) (plugin_funcs pl h)"
    by (simp add: call_hook_invocations)
next
  assume m: "main_of (disk s) p = Some (Defines (Module (Some (RegisterFn acts None))))"
  show "fst (load_plugin_from_dir p s) = Inr ()"
    by (simp add: load_success [OF m])
  show "map_of (plugins (pm (snd (load_plugin_from_dir p s)))) (path_name p) =
      Some (loaded_plugin p acts)"
    by (simp add: load_success [OF m] emit_def AList.update_conv')
  show "plugin_funcs (loaded_plugin p acts) h = registered acts h"
    by simp
  assume "wf_table (plugins (pm s))"
  then show "wf_table (plugins (pm (snd (load_plugin_from_dir p s))))"
    by (simp add: load_success [OF m] emit_def wf_table_update)
qed

theorem call_hook_invokes_registered_witness:
  "wf_table (plugins (pm sample_state))
   \<and> all_catchable sample_beh ''x'' [StrVal ''f''] [] (map snd (plugins (pm sample_state)))
   \<and> fst (call_hook sample_beh ''x'' [StrVal ''f''] [] sample_state) = Inr ()
   \<and> filter (invoked_by ''a'')
        (new_events sample_state (snd (call_hook sample_beh ''x'' [StrVal ''f''] [] sample_state))) =
      [Invoked ''a'' ''x'' (FuncVal 1) [StrVal ''f''] [],
       Invoked ''a'' ''x'' (FuncVal 2) [StrVal ''f''] []]
   \<and> filter (invoked_by ''b'')
        (new_events sample_state (snd (call_hook sample_beh ''y'' [] [] sample_state))) =
      [Invoked ''b'' ''y'' (IntVal 7) [] []]
   \<and> filter (invoked_by ''a'')
        (new_events sample_state (snd (call_hook sample_beh ''y'' [] [] sample_state))) = []
   \<and> fst (load_plugin_from_dir ''plugins/b'' (init_state sample_disk)) = Inr ()
   \<and> plugin_funcs (loaded_plugin ''plugins/b''
        [RegisterHook ''x'' (FuncVal 4), RegisterHook ''y'' (IntVal 7)]) ''x'' = [FuncVal 4]
   \<and> wf_table (plugins (pm (snd (load_plugin_from_dir ''plugins/b'' (init_state sample_disk)))))"
proof -
  have w: "wf_table (plugins (pm sample_state))" by code_simp
  have cx: "all_catchable sample_beh ''x'' [StrVal ''f''] [] (map snd (plugins (pm sample_state)))"
    by code_simp
  have cy: "all_catchable sample_beh ''y'' [] [] (map snd (plugins (pm sample_state)))"
    by code_simp
  have a: "map_of (plugins (pm sample_state)) ''a'' =
      Some \<lparr>name = ''a'', path = ''plugins/a'',
            module = Some (Module (Some (RegisterFn
              [RegisterHook ''x'' (FuncVal 1), RegisterHook ''x'' (FuncVal 2)] None))),
            hooks = [(''x'', [FuncVal 1, FuncVal 2])]\<rparr>"
    by code_simp
  have b: "map_of (plugins (pm sample_state)) ''b'' =
      Some \<lparr>name = ''b'', path = ''plugins/b'',
            module = Some (Module (Some (RegisterFn
              [RegisterHook ''x'' (FuncVal 4), RegisterHook ''y'' (IntVal 7)] None))),
            hooks = [(''x'', [FuncVal 4]), (''y'', [IntVal 7])]\<rparr>"
    by code_simp
  have m: "main_of (disk (init_state sample_disk)) ''plugins/b'' =
      Some (Defines (Module (Some (RegisterFn
        [RegisterHook ''x'' (FuncVal 4), RegisterHook ''y'' (IntVal 7)] None))))"
    by code_simp
  have w0: "wf_table (plugins (pm (init_state sample_disk)))" by code_simp
  note x = call_hook_invokes_registered [of sample_state sample_beh "''x''" "[StrVal ''f'']" "[]"]
  note y = call_hook_invokes_registered [of sample_state sample_beh "''y''" "[]" "[]"]
  note l = call_hook_invokes_registered [where s = "init_state sample_disk" and h = "''x''"
      and p = "''plugins/b''"
      and acts = "[RegisterHook ''x'' (FuncVal 4), RegisterHook ''y'' (IntVal 7)]"]
  from x w cx have 3: "fst (call_hook sample_beh ''x'' [StrVal ''f''] [] sample_state) = Inr ()"
    by simp
  from x w cx a have 4: "filter (invoked_by ''a'')
        (new_events sample_state (snd (call_hook sample_beh ''x'' [StrVal ''f''] [] sample_state))) =
      [Invoked ''a'' ''x'' (FuncVal 1) [StrVal ''f''] [],
       Invoked ''a'' ''x'' (FuncVal 2) [StrVal ''f''] []]"
    by (simp add: plugin_funcs_def)
  from y w cy b have 5: "filter (invoked_by ''b'')
        (new_events sample_state (snd (call_hook sample_beh ''y'' [] [] sample_state))) =
      [Invoked ''b'' ''y'' (IntVal 7) [] []]"
    by (simp add: plugin_funcs_def)
  from y w cy a have 6: "filter (invoked_by ''a'')
        (new_events sample_state (snd (call_hook sample_beh ''y'' [] [] sample_state))) = []"
    by (simp add: plugin_funcs_def)
  from l m have 7: "fst (load_plugin_from_dir ''plugins/b'' (init_state sample_disk)) = Inr ()"
    by simp
  from l m have 8: "plugin_funcs (loaded_plugin ''plugins/b''
        [RegisterHook ''x'' (FuncVal 4), RegisterHook ''y'' (IntVal 7)]) ''x'' = [FuncVal 4]"
    by simp
  from l m w0 have 9:
    "wf_table (plugins (pm (snd (load_plugin_from_dir ''plugins/b'' (init_state sample_disk)))))"
    by simp
  show ?thesis by (intro conjI w cx 3 4 5 6 7 8 9)
qed

text \<open>
  The claim as stated fails when a callback raises \<^verbatim>\<open>SystemExit\<close>: the plugin \<open>b\<close> is
  loaded and holds a callback for the hook, which the dispatch never calls, and the
  second callback of the plugin \<open>e\<close> is not called either.
\<close>

theorem call_hook_skips_after_SystemExit:
  "map_of (plugins (pm exit_state)) ''b'' =
     Some \<lparr>name = ''b'', path = ''plugins/b'',
           module = Some (Module (Some (RegisterFn [RegisterHook ''x'' (FuncVal 4)] None))),
           hooks = [(''x'', [FuncVal 4])]\<rparr>
   \<and> filter (invoked_by ''b'')
        (new_events exit_state (snd (call_hook sample_beh ''x'' [] [] exit_state))) = []
   \<and> filter (invoked_by ''e'')
        (new_events exit_state (snd (call_hook sample_beh ''x'' [] [] exit_state))) =
       [Invoked ''e'' ''x'' (FuncVal 3) [] []]
   \<and> plugin_funcs (snd (hd (plugins (pm exit_state)))) ''x'' = [FuncVal 3, FuncVal 2]"
  by code_simp

subsection \<open>A registration that fails part of the way\<close>

lemma load_register_raises:
  assumes "main_of (disk s) p = Some (Defines (Module (Some (RegisterFn acts (Some e)))))"
  shows "load_plugin_from_dir p s =
     (Inl (if is_Exception e
           then RuntimeError (''Plugin register() failed: '' @ exc_text e) else e), s)"
  using assms by (simp add: load_plugin_from_dir_def Let_def)

text \<open>
  Claim C8, as the code has it. When \<^verbatim>\<open>register\<close> registers hooks and then raises, the
  hooks registered before the failure are in the hook map of the \<^verbatim>\<open>Plugin\<close> object that
  the load created, but the load fails before that object is stored: the plugin table
  is the table before the load, and a dispatch after the failed load is the dispatch
  before it. The callbacks of the failed registration are not reachable by \<open>call_hook\<close>.
\<close>

theorem partial_registration_discarded:
  "main_of (disk s) p = Some (Defines (Module (Some (RegisterFn acts (Some e))))) \<longrightarrow>
     plugin_funcs (api_plugin (snd (call_register (RegisterFn acts (Some e))
        \<lparr>api_plugin = new_Plugin (path_name p) p, api_manager = pm s\<rparr>))) h = registered acts h
     \<and> fst (load_plugin_from_dir p s) =
         Inl (if is_Exception e
              then RuntimeError (''Plugin register() failed: '' @ exc_text e) else e)
     \<and> plugins (pm (snd (load_plugin_from_dir p s))) = plugins (pm s)
     \<and> call_hook beh h a k (snd (load_plugin_from_dir p s)) = call_hook beh h a k s"
proof
  assume m: "main_of (disk s) p = Some (Defines (Module (Some (RegisterFn acts (Some e)))))"
  have "plugin_funcs (api_plugin (snd (call_register (RegisterFn acts (Some e))
        \<lparr>api_plugin = new_Plugin (path_name p) p, api_manager = pm s\<rparr>))) h = registered acts h"
    by (simp add: plugin_funcs_script)
  then show "plugin_funcs (api_plugin (snd (call_register (RegisterFn acts (Some e))
        \<lparr>api_plugin = new_Plugin (path_name p) p, api_manager = pm s\<rparr>))) h = registered acts h
     \<and> fst (load_plugin_from_dir p s) =
         Inl (if is_Exception e
              then RuntimeError (''Plugin register() failed: '' @ exc_text e) else e)
     \<and> plugins (pm (snd (load_plugin_from_dir p s))) = plugins (pm s)
     \<and> call_hook beh h a k (snd (load_plugin_from_dir p s)) = call_hook beh h a k s"
    by (simp add: load_register_raises [OF m])
qed

theorem partial_registration_discarded_witness:
  "main_of (disk sample_state) ''plugins/p'' =
     Some (Defines (Module (Some (RegisterFn [RegisterHook ''x'' (FuncVal 5)]
       (Some (PluginError ''late''))))))
   \<and> registered [RegisterHook ''x'' (FuncVal 5)] ''x'' = [FuncVal 5]
   \<and> fst (load_plugin_from_dir ''plugins/p'' sample_state) =
       Inl (RuntimeError ''Plugin register() failed: late'')
   \<and> map fst (plugins (pm (snd (load_plugin_from_dir ''plugins/p'' sample_state)))) = [''a'', ''b'']
   \<and> call_hook sample_beh ''x'' [] [] (snd (load_plugin_from_dir ''plugins/p'' sample_state)) =
       call_hook sample_beh ''x'' [] [] sample_state"
proof -
  have m: "main_of (disk sample_state) ''plugins/p'' =
     Some (Defines (Module (Some (RegisterFn [RegisterHook ''x'' (FuncVal 5)]
       (Some (PluginError ''late''))))))"
    by code_simp
  have r: "registered [RegisterHook ''x'' (FuncVal 5)] ''x'' = [FuncVal 5]" by simp
  have k: "map fst (plugins (pm sample_state)) = [''a'', ''b'']" by code_simp
  note t = partial_registration_discarded [where s = sample_state and p = "''plugins/p''"
      and acts = "[RegisterHook ''x'' (FuncVal 5)]" and e = "PluginError ''late''"
      and beh = sample_beh and h = "''x''" and a = "[]" and k = "[]"]
  from t m have 3: "fst (load_plugin_from_dir ''plugins/p'' sample_state) =
       Inl (RuntimeError ''Plugin register() failed: late'')" by simp
  from t m k have 4:
    "map fst (plugins (pm (snd (load_plugin_from_dir ''plugins/p'' sample_state)))) = [''a'', ''b'']"
    by simp
  from t m have 5:
    "call_hook sample_beh ''x'' [] [] (snd (load_plugin_from_dir ''plugins/p'' sample_state)) =
       call_hook sample_beh ''x'' [] [] sample_state" by simp
  show ?thesis by (intro conjI m r 3 4 5)
qed

text \<open>
  The claim as stated, that the hooks registered before the failure are observable to
  the next dispatch, fails: after the failed load of \<open>plugins/p\<close>, whose \<^verbatim>\<open>register\<close>
  registered callable 5 for the hook \<open>x\<close> and raised, a dispatch of \<open>x\<close> calls nothing,
  and after the bulk load that logged the same failure it calls the callbacks of the
  plugins \<open>a\<close> and \<open>b\<close> only.
\<close>

theorem partial_hooks_not_dispatched:
  "fst (load_plugin_from_dir ''plugins/p'' (init_state sample_disk)) =
     Inl (RuntimeError ''Plugin register() failed: late'')
   \<and> hooks (api_plugin (snd (call_register
        (RegisterFn [RegisterHook ''x'' (FuncVal 5)] (Some (PluginError ''late'')))
        \<lparr>api_plugin = new_Plugin ''p'' ''plugins/p'', api_manager = \<lparr>plugins = []\<rparr>\<rparr>))) =
       [(''x'', [FuncVal 5])]
   \<and> call_hook sample_beh ''x'' [] []
        (snd (load_plugin_from_dir ''plugins/p'' (init_state sample_disk))) =
       (Inr (), init_state sample_disk)
   \<and> PrintFailedLoading ''plugins/p'' (RuntimeError ''Plugin register() failed: late'')
        \<in> set (trace sample_state)
   \<and> new_events sample_state (snd (call_hook sample_beh ''x'' [] [] sample_state)) =
       [Invoked ''a'' ''x'' (FuncVal 1) [] [],
        PrintHookError ''a'' ''x'' (PluginError ''boom''),
        Invoked ''a'' ''x'' (FuncVal 2) [] [],
        Invoked ''b'' ''x'' (FuncVal 4) [] []]"
  by code_simp

subsection \<open>Paths and the free destination\<close>



lemma path_name_join: "CHR ''/'' \<notin> set n \<Longrightarrow> path_name (d @ CHR ''/'' # n) = n"
proof -
  assume n: "CHR ''/'' \<notin> set n"
  have "takeWhile (\<lambda>c. c \<noteq> CHR ''/'') (rev n @ CHR ''/'' # rev d) =
      rev n @ takeWhile (\<lambda>c. c \<noteq> CHR ''/'') (CHR ''/'' # rev d)"
    by (rule takeWhile_append2) (use n in auto)
  then show ?thesis by (simp add: path_name_def)
qed

lemma is_child_of_join:
  "n \<noteq> [] \<Longrightarrow> CHR ''/'' \<notin> set n \<Longrightarrow> is_child_of d (d @ CHR ''/'' # n)"
  by (simp add: is_child_of_def Let_def)

lemma is_child_ofD:
  "is_child_of d p \<Longrightarrow> p = d @ CHR ''/'' # path_name p \<and> path_name p \<noteq> []"
proof -
  assume c: "is_child_of d p"
  define n where "n = drop (length d + 1) p"
  from c have t: "take (length d + 1) p = d @ ''/''" and n: "n \<noteq> []" "CHR ''/'' \<notin> set n"
    by (simp_all add: is_child_of_def Let_def n_def)
  have "p = take (length d + 1) p @ n" by (simp add: n_def)
  with t have p: "p = d @ CHR ''/'' # n" by simp
  from n(2) have "path_name (d @ CHR ''/'' # n) = n" by (rule path_name_join)
  with p n(1) show ?thesis by simp
qed

lemma suffixed_child: "CHR ''/'' \<notin> set base \<Longrightarrow> is_child_of PLUGINS_DIR (suffixed base k)"
  using str_nat_no_slash [of k]
  by (simp add: suffixed_eq is_child_of_join)

lemma find_free_free: "\<not> exists_path d (find_free d base dest idx)"
  by (induction d base dest idx rule: find_free.induct) (subst find_free.simps, simp)


subsection \<open>A load, by its result\<close>

lemma load_classify:
  "load_plugin_from_dir p s =
     (case main_of (disk s) p of
        None \<Rightarrow> (Inl (FileNotFoundError (''plugin-main.py missing in '' @ p)), s)
      | Some (Crashes e) \<Rightarrow>
          (Inl (if is_Exception e
                then RuntimeError (''Error executing plugin-main.py: '' @ exc_text e) else e), s)
      | Some (Defines (Module None)) \<Rightarrow>
          (Inl (RuntimeError ''plugin-main.py must provide register(api) function''), s)
      | Some (Defines (Module (Some (RegisterFn acts (Some e))))) \<Rightarrow>
          (Inl (if is_Exception e
                then RuntimeError (''Plugin register() failed: '' @ exc_text e) else e), s)
      | Some (Defines (Module (Some (RegisterFn acts None)))) \<Rightarrow>
          (Inr (), store_loaded p (loaded_plugin p acts) s))"
proof (cases "main_of (disk s) p")
  case None
  then show ?thesis by (simp add: load_plugin_from_dir_def Let_def)
next
  case (Some c)
  show ?thesis
  proof (cases c)
    case (Crashes e)
    with Some show ?thesis by (simp add: load_plugin_from_dir_def Let_def)
  next
    case (Defines m)
    obtain r where m: "m = Module r" by (cases m)
    show ?thesis
    proof (cases r)
      case None
      with Some Defines m show ?thesis by (simp add: load_plugin_from_dir_def Let_def)
    next
      case reg: (Some reg)
      obtain acts fin where r: "reg = RegisterFn acts fin" by (cases reg)
      show ?thesis
      proof (cases fin)
        case None
        with Some Defines m reg r
        have "main_of (disk s) p = Some (Defines (Module (Some (RegisterFn acts None))))"
          by simp
        from load_success [OF this] Some Defines m reg r None
        show ?thesis by (simp add: store_loaded_def)
      next
        case e: (Some e)
        with Some Defines m reg r
        have "main_of (disk s) p = Some (Defines (Module (Some (RegisterFn acts (Some e)))))"
          by simp
        from load_register_raises [OF this] Some Defines m reg r e
        show ?thesis by simp
      qed
    qed
  qed
qed

lemma store_loaded_fields [simp]:
  "plugins (pm (store_loaded p pl s)) = AList.update (path_name p) pl (plugins (pm s))"
  "disk (store_loaded p pl s) = disk s"
  "trace (store_loaded p pl s) = trace s @ [PrintLoaded (path_name p)]"
  by (simp_all add: store_loaded_def emit_def)

lemma load_by_result:
  "load_plugin_from_dir p s =
     (case load_result (disk s) p of
        Inl e \<Rightarrow> (Inl e, s)
      | Inr pl \<Rightarrow> (Inr (), store_loaded p pl s))"
  unfolding load_result_def load_classify [of p s] load_classify [of p "init_state (disk s)"]
  by (simp add: init_state_def AList.update_conv'
      split: option.splits entry_code.splits pymodule.splits register_fn.splits)

lemma load_disk [simp]: "disk (snd (load_plugin_from_dir p s)) = disk s"
  by (simp add: load_by_result split: sum.splits)

lemma update_absent: "k \<notin> fst ` set al \<Longrightarrow> AList.update k v al = al @ [(k, v)]"
  by (induction al) auto

lemma extractall_fresh:
  assumes "\<not> exists_path d dest"
  shows "extractall members dest d = d @ [(dest, Directory (write_members members []))]"
proof -
  from assms have n: "dest \<notin> fst ` set d" by (simp add: exists_path_iff)
  then have "map_of d dest = None" by (simp add: map_of_eq_None_iff)
  with n show ?thesis by (simp add: extractall_def update_absent)
qed

lemma install_valid:
  assumes "map_of (disk s) scpl = Some (RegularFile (Zip members))"
    and "''plugin-main.py'' \<in> set (map fst members)"
  shows "install_plugin scpl s =
     (case load_plugin_from_dir (install_dest (disk s) scpl)
             (extracted members (install_dest (disk s) scpl) s) of
        (Inl e, s2) \<Rightarrow> (Inl e, s2)
      | (Inr u, s2) \<Rightarrow> (Inr (install_dest (disk s) scpl), s2))"
proof -
  have "\<not> exists_path (disk s) (install_dest (disk s) scpl)"
    by (simp add: install_dest_def find_free_free)
  from extractall_fresh [OF this]
  have x: "extractall members (install_dest (disk s) scpl) (disk s) =
      disk s @ [(install_dest (disk s) scpl, Directory (write_members members []))]" .
  have "install_plugin scpl s =
     (case load_plugin_from_dir (install_dest (disk s) scpl)
             (s\<lparr>disk := extractall members (install_dest (disk s) scpl) (disk s)\<rparr>) of
        (Inl e, s2) \<Rightarrow> (Inl e, s2)
      | (Inr u, s2) \<Rightarrow> (Inr (install_dest (disk s) scpl), s2))"
    unfolding install_dest_def using assms
    by (simp add: install_plugin_def Let_def split: prod.splits sum.splits)
  then show ?thesis by (simp only: x extracted_def)
qed

lemma load_result_Inr:
  "load_result d p = Inr pl \<Longrightarrow> \<exists>acts. pl = loaded_plugin p acts"
  unfolding load_result_def load_classify [of p "init_state d"]
  by (auto simp: AList.update_conv'
      split: option.splits entry_code.splits pymodule.splits register_fn.splits if_splits)


lemma install_dest_free: "\<not> exists_path d (install_dest d scpl)"
  by (simp add: install_dest_def find_free_free)






lemma install_disk_after:
  assumes v: "map_of (disk s) scpl = Some (RegularFile (Zip members))"
    "''plugin-main.py'' \<in> set (map fst members)"
  shows "disk (snd (install_plugin scpl s)) =
     disk s @ [(install_dest (disk s) scpl, Directory (write_members members []))]"
proof -
  let ?dest = "install_dest (disk s) scpl"
  let ?s1 = "extracted members ?dest s"
  obtain r s2 where l: "load_plugin_from_dir ?dest ?s1 = (r, s2)"
    by (cases "load_plugin_from_dir ?dest ?s1")
  from load_disk [of ?dest ?s1] l have "disk s2 = disk ?s1" by simp
  then show ?thesis
    unfolding install_valid [OF v] l by (cases r) (simp_all add: extracted_def)
qed

lemma map_of_append_new:
  "k \<notin> fst ` set xs \<Longrightarrow> map_of (xs @ [(k, v)]) k = Some v"
  by (induction xs) auto

lemma load_ok_table:
  assumes "fst (load_plugin_from_dir p s) = Inr u"
  shows "\<exists>acts. plugins (pm (snd (load_plugin_from_dir p s))) =
      AList.update (path_name p) (loaded_plugin p acts) (plugins (pm s))"
proof (cases "load_result (disk s) p")
  case (Inl e)
  with assms show ?thesis by (simp add: load_by_result)
next
  case (Inr pl)
  from load_result_Inr [OF this] obtain acts where "pl = loaded_plugin p acts" ..
  with Inr show ?thesis by (auto simp: load_by_result)
qed

lemma install_Inr_valid:
  "fst (install_plugin scpl s) = Inr d \<Longrightarrow>
   \<exists>members. map_of (disk s) scpl = Some (RegularFile (Zip members))
     \<and> ''plugin-main.py'' \<in> set (map fst members)"
  by (auto simp: install_plugin_def Let_def
      split: option.splits node.splits package.splits if_splits)

subsection \<open>Installing a package\<close>








text \<open>
  Claim C5. \<open>install_plugin\<close> fails when the archive is missing, and with
  \<^verbatim>\<open>RuntimeError\<close> when the archive has no \<^verbatim>\<open>plugin-main.py\<close> at its root, the state
  unchanged. For an archive with the entrypoint, the result is the result of the load
  of the extracted directory: its error, unchanged, or the destination path. Whenever
  \<open>install_plugin\<close> returns a path, it is the computed destination, a directory on the
  disk, and the table holds the record of the plugin at that path.
\<close>

theorem install_plugin_errors_and_result:
  "(map_of (disk s) scpl = None \<longrightarrow>
      install_plugin scpl s = (Inl (FileNotFoundError scpl), s))
   \<and> (\<forall>members. map_of (disk s) scpl = Some (RegularFile (Zip members))
         \<and> ''plugin-main.py'' \<notin> set (map fst members) \<longrightarrow>
        install_plugin scpl s =
          (Inl (RuntimeError ''.scpl must contain plugin-main.py at root''), s))
   \<and> (\<forall>members. map_of (disk s) scpl = Some (RegularFile (Zip members))
         \<and> ''plugin-main.py'' \<in> set (map fst members) \<longrightarrow>
        fst (install_plugin scpl s) =
          (case fst (load_plugin_from_dir (install_dest (disk s) scpl)
                  (extracted members (install_dest (disk s) scpl) s)) of
             Inl e \<Rightarrow> Inl e
           | Inr u \<Rightarrow> Inr (install_dest (disk s) scpl)))
   \<and> (\<forall>d. fst (install_plugin scpl s) = Inr d \<longrightarrow>
        d = install_dest (disk s) scpl
        \<and> is_dir (disk (snd (install_plugin scpl s))) d
        \<and> (\<exists>pl. map_of (plugins (pm (snd (install_plugin scpl s)))) (path_name d) = Some pl
              \<and> name pl = path_name d \<and> path pl = d))"
proof (intro conjI allI impI)
  assume "map_of (disk s) scpl = None"
  then show "install_plugin scpl s = (Inl (FileNotFoundError scpl), s)"
    by (simp add: install_plugin_def)
next
  fix members
  assume "map_of (disk s) scpl = Some (RegularFile (Zip members))
         \<and> ''plugin-main.py'' \<notin> set (map fst members)"
  then show "install_plugin scpl s =
          (Inl (RuntimeError ''.scpl must contain plugin-main.py at root''), s)"
    by (simp add: install_plugin_def)
next
  fix members
  assume "map_of (disk s) scpl = Some (RegularFile (Zip members))
         \<and> ''plugin-main.py'' \<in> set (map fst members)"
  then have v: "map_of (disk s) scpl = Some (RegularFile (Zip members))"
    "''plugin-main.py'' \<in> set (map fst members)" by simp_all
  show "fst (install_plugin scpl s) =
          (case fst (load_plugin_from_dir (install_dest (disk s) scpl)
                  (extracted members (install_dest (disk s) scpl) s)) of
             Inl e \<Rightarrow> Inl e
           | Inr u \<Rightarrow> Inr (install_dest (disk s) scpl))"
    unfolding install_valid [OF v] by (simp split: prod.splits sum.splits)
next
  fix d assume ok: "fst (install_plugin scpl s) = Inr d"
  from install_Inr_valid [OF ok] obtain members
    where v: "map_of (disk s) scpl = Some (RegularFile (Zip members))"
      "''plugin-main.py'' \<in> set (map fst members)" by blast
  let ?dest = "install_dest (disk s) scpl"
  from ok show d: "d = ?dest"
    unfolding install_valid [OF v] by (auto split: prod.splits sum.splits)
  have "?dest \<notin> fst ` set (disk s)"
    using install_dest_free [of "disk s" scpl] by (simp add: exists_path_iff)
  then have "map_of (disk s @ [(?dest, Directory (write_members members []))]) ?dest =
      Some (Directory (write_members members []))"
    by (rule map_of_append_new)
  then show "is_dir (disk (snd (install_plugin scpl s))) d"
    by (simp only: d install_disk_after [OF v] is_dir_def) simp
  let ?s1 = "extracted members ?dest s"
  obtain r s2 where l: "load_plugin_from_dir ?dest ?s1 = (r, s2)"
    by (cases "load_plugin_from_dir ?dest ?s1")
  from ok have r: "r = Inr ()"
    unfolding install_valid [OF v] l by (cases r) simp_all
  with l have "fst (load_plugin_from_dir ?dest ?s1) = Inr ()" by simp
  from load_ok_table [OF this] l obtain acts where "plugins (pm s2) =
      AList.update (path_name ?dest) (loaded_plugin ?dest acts) (plugins (pm ?s1))"
    by auto
  moreover have "snd (install_plugin scpl s) = s2"
    unfolding install_valid [OF v] l r by simp
  ultimately have "plugins (pm (snd (install_plugin scpl s))) =
      AList.update (path_name ?dest) (loaded_plugin ?dest acts) (plugins (pm s))"
    by (simp add: extracted_def)
  then show "\<exists>pl. map_of (plugins (pm (snd (install_plugin scpl s)))) (path_name d) = Some pl
              \<and> name pl = path_name d \<and> path pl = d"
    by (simp add: d AList.update_conv')
qed

theorem install_plugin_errors_and_result_witness:
  "install_plugin ''pkg/none.scpl'' install_state =
     (Inl (FileNotFoundError ''pkg/none.scpl''), install_state)
   \<and> install_plugin ''pkg/z.scpl'' install_state =
     (Inl (RuntimeError ''.scpl must contain plugin-main.py at root''), install_state)
   \<and> fst (load_plugin_from_dir ''plugins/q''
        (extracted [main_file (RegisterFn [RegisterHook ''x'' (FuncVal 5)]
           (Some (PluginError ''late'')))] ''plugins/q'' install_state)) =
       Inl (RuntimeError ''Plugin register() failed: late'')
   \<and> fst (install_plugin ''pkg/q.zip'' install_state) =
       Inl (RuntimeError ''Plugin register() failed: late'')
   \<and> fst (install_plugin ''pkg/a.scpl'' install_state) = Inr ''plugins/a_2''
   \<and> is_dir (disk (snd (install_plugin ''pkg/a.scpl'' install_state))) ''plugins/a_2''
   \<and> (\<exists>pl. map_of (plugins (pm (snd (install_plugin ''pkg/a.scpl'' install_state)))) ''a_2'' =
          Some pl \<and> name pl = ''a_2'' \<and> path pl = ''plugins/a_2'')"
proof -
  let ?q = "[main_file (RegisterFn [RegisterHook ''x'' (FuncVal 5)] (Some (PluginError ''late'')))]"
  let ?a = "[main_file (RegisterFn [RegisterHook ''x'' (FuncVal 6)] None),
        (''readme'', Crashes (PluginError ''text''))]"
  let ?z = "[(''readme'', Crashes (PluginError ''text''))]"
  have none: "map_of (disk install_state) ''pkg/none.scpl'' = None" by code_simp
  have z: "map_of (disk install_state) ''pkg/z.scpl'' = Some (RegularFile (Zip ?z))
      \<and> ''plugin-main.py'' \<notin> set (map fst ?z)" by code_simp
  have q: "map_of (disk install_state) ''pkg/q.zip'' = Some (RegularFile (Zip ?q))
      \<and> ''plugin-main.py'' \<in> set (map fst ?q)" by code_simp
  have a: "map_of (disk install_state) ''pkg/a.scpl'' = Some (RegularFile (Zip ?a))
      \<and> ''plugin-main.py'' \<in> set (map fst ?a)" by code_simp
  have dq: "install_dest (disk install_state) ''pkg/q.zip'' = ''plugins/q''" by code_simp
  have da: "install_dest (disk install_state) ''pkg/a.scpl'' = ''plugins/a_2''" by code_simp
  have lq: "fst (load_plugin_from_dir ''plugins/q'' (extracted ?q ''plugins/q'' install_state)) =
       Inl (RuntimeError ''Plugin register() failed: late'')" by code_simp
  have la: "fst (load_plugin_from_dir ''plugins/a_2'' (extracted ?a ''plugins/a_2'' install_state)) =
       Inr ()" by code_simp
  have pn: "path_name ''plugins/a_2'' = ''a_2''" by code_simp
  note tn = install_plugin_errors_and_result [of install_state "''pkg/none.scpl''"]
  note tz = install_plugin_errors_and_result [of install_state "''pkg/z.scpl''"]
  note tq = install_plugin_errors_and_result [of install_state "''pkg/q.zip''"]
  note ta = install_plugin_errors_and_result [of install_state "''pkg/a.scpl''"]
  from tn none have 1: "install_plugin ''pkg/none.scpl'' install_state =
     (Inl (FileNotFoundError ''pkg/none.scpl''), install_state)" by blast
  from tz z have 2: "install_plugin ''pkg/z.scpl'' install_state =
     (Inl (RuntimeError ''.scpl must contain plugin-main.py at root''), install_state)" by blast
  from tq q have "fst (install_plugin ''pkg/q.zip'' install_state) =
          (case fst (load_plugin_from_dir (install_dest (disk install_state) ''pkg/q.zip'')
                  (extracted ?q (install_dest (disk install_state) ''pkg/q.zip'') install_state)) of
             Inl e \<Rightarrow> Inl e
           | Inr u \<Rightarrow> Inr (install_dest (disk install_state) ''pkg/q.zip''))" by blast
  then have 4: "fst (install_plugin ''pkg/q.zip'' install_state) =
       Inl (RuntimeError ''Plugin register() failed: late'')"
    by (simp add: dq lq)
  from ta a have "fst (install_plugin ''pkg/a.scpl'' install_state) =
          (case fst (load_plugin_from_dir (install_dest (disk install_state) ''pkg/a.scpl'')
                  (extracted ?a (install_dest (disk install_state) ''pkg/a.scpl'') install_state)) of
             Inl e \<Rightarrow> Inl e
           | Inr u \<Rightarrow> Inr (install_dest (disk install_state) ''pkg/a.scpl''))" by blast
  then have 5: "fst (install_plugin ''pkg/a.scpl'' install_state) = Inr ''plugins/a_2''"
    by (simp add: da la)
  from ta 5 have 6: "is_dir (disk (snd (install_plugin ''pkg/a.scpl'' install_state))) ''plugins/a_2''"
    by blast
  from ta 5 have "\<exists>pl. map_of (plugins (pm (snd (install_plugin ''pkg/a.scpl'' install_state))))
          (path_name ''plugins/a_2'') = Some pl
        \<and> name pl = path_name ''plugins/a_2'' \<and> path pl = ''plugins/a_2''"
    by blast
  then have 7: "\<exists>pl. map_of (plugins (pm (snd (install_plugin ''pkg/a.scpl'' install_state)))) ''a_2'' =
          Some pl \<and> name pl = ''a_2'' \<and> path pl = ''plugins/a_2''"
    by (simp only: pn)
  show ?thesis by (intro conjI 1 2 lq 4 5 6 7)
qed

subsection \<open>Loading all plugins\<close>

lemma scanned_Nil [simp]: "scanned [] s = s"
  by (simp add: scanned_def scan_events_def)

lemma cleared_fields [simp]:
  "disk (cleared s) = disk s" "trace (cleared s) = trace s" "plugins (pm (cleared s)) = []"
  by (simp_all add: cleared_def)

lemma scanned_fields [simp]:
  "disk (scanned ps s) = disk s"
  "trace (scanned ps s) = trace s @ scan_events (disk s) ps"
  "plugins (pm (scanned ps s)) = scan_table (disk s) ps (plugins (pm s))"
  by (simp_all add: scanned_def)


lemma load_each_caught:
  "list_all (loads_caught (disk s)) (filter (is_dir (disk s)) ps) \<Longrightarrow>
   load_each ps s = (Inr (), scanned ps s)"
proof (induction ps arbitrary: s)
  case Nil
  then show ?case by simp
next
  case (Cons p ps)
  show ?case
  proof (cases "is_dir (disk s) p")
    case False
    with Cons.prems have "list_all (loads_caught (disk s)) (filter (is_dir (disk s)) ps)"
      by simp
    from Cons.IH [OF this] False show ?thesis
      by (simp add: scanned_def scan_events_def scan_event_def)
  next
    case True
    with Cons.prems have c: "loads_caught (disk s) p"
      and r: "list_all (loads_caught (disk s)) (filter (is_dir (disk s)) ps)" by simp_all
    show ?thesis
    proof (cases "load_result (disk s) p")
      case (Inl e)
      let ?s1 = "emit (PrintFailedLoading p e) s"
      from c Inl have e: "is_Exception e" by (simp add: loads_caught_def)
      have d: "disk ?s1 = disk s" by (simp add: emit_def)
      from r have "list_all (loads_caught (disk ?s1)) (filter (is_dir (disk ?s1)) ps)"
        by (simp only: d)
      from Cons.IH [OF this] True Inl e show ?thesis
        by (simp add: load_by_result scanned_def scan_events_def scan_event_def emit_def)
    next
      case (Inr pl)
      let ?s1 = "store_loaded p pl s"
      have d: "disk ?s1 = disk s" by simp
      from r have "list_all (loads_caught (disk ?s1)) (filter (is_dir (disk ?s1)) ps)"
        by (simp only: d)
      from Cons.IH [OF this] True Inr show ?thesis
        by (simp add: load_by_result scanned_def scan_events_def scan_event_def
            store_loaded_def emit_def)
    qed
  qed
qed

lemma load_each_propagates:
  "fst (load_each ps s) = Inl e \<Longrightarrow> \<not> is_Exception e"
proof (induction ps arbitrary: s)
  case Nil
  then show ?case by simp
next
  case (Cons p ps)
  show ?case
  proof (cases "is_dir (disk s) p")
    case False
    with Cons show ?thesis by simp
  next
    case True
    show ?thesis
    proof (cases "load_result (disk s) p")
      case (Inl x)
      with True Cons.prems Cons.IH [of "emit (PrintFailedLoading p x) s"] show ?thesis
        by (cases "is_Exception x") (simp_all add: load_by_result)
    next
      case (Inr pl)
      with True Cons.prems Cons.IH [of "store_loaded p pl s"] show ?thesis
        by (simp add: load_by_result)
    qed
  qed
qed

lemma load_each_append:
  "load_each (ps @ qs) s =
     (case load_each ps s of (Inl e, s') \<Rightarrow> (Inl e, s') | (Inr u, s') \<Rightarrow> load_each qs s')"
proof (induction ps arbitrary: s)
  case Nil
  then show ?case by simp
next
  case (Cons p ps)
  show ?case
  proof (cases "is_dir (disk s) p")
    case False
    with Cons show ?thesis by simp
  next
    case True
    show ?thesis
    proof (cases "load_result (disk s) p")
      case (Inl x)
      with True Cons [of "emit (PrintFailedLoading p x) s"] show ?thesis
        by (cases "is_Exception x") (simp_all add: load_by_result)
    next
      case (Inr pl)
      with True Cons [of "store_loaded p pl s"] show ?thesis
        by (simp add: load_by_result)
    qed
  qed
qed

lemma load_each_dirs:
  "load_each ps s = load_each (filter (is_dir (disk s)) ps) s"
proof (induction ps arbitrary: s)
  case Nil
  then show ?case by simp
next
  case (Cons p ps)
  show ?case
  proof (cases "is_dir (disk s) p")
    case False
    with Cons show ?thesis by simp
  next
    case True
    show ?thesis
    proof (cases "load_result (disk s) p")
      case (Inl x)
      let ?s1 = "emit (PrintFailedLoading p x) s"
      have "disk ?s1 = disk s" by (simp add: emit_def)
      with Cons [of ?s1] have "load_each ps ?s1 = load_each (filter (is_dir (disk s)) ps) ?s1"
        by simp
      with True Inl show ?thesis
        by (cases "is_Exception x") (simp_all add: load_by_result)
    next
      case (Inr pl)
      let ?s1 = "store_loaded p pl s"
      have "disk ?s1 = disk s" by simp
      with Cons [of ?s1] have "load_each ps ?s1 = load_each (filter (is_dir (disk s)) ps) ?s1"
        by simp
      with True Inr show ?thesis
        by (simp add: load_by_result)
    qed
  qed
qed

lemma load_each_single_failure:
  assumes "is_dir (disk t) p" and "load_result (disk t) p = Inl e"
  shows "load_each (p # ps) t =
     (if is_Exception e then load_each ps (emit (PrintFailedLoading p e) t) else (Inl e, t))"
  using assms by (simp add: load_by_result)

lemma load_each_stops:
  assumes pre: "list_all (loads_caught (disk s)) (filter (is_dir (disk s)) pre)"
    and p: "is_dir (disk s) p" "load_result (disk s) p = Inl e" "\<not> is_Exception e"
  shows "load_each (pre @ p # post) s = (Inl e, scanned pre s)"
proof -
  have "is_dir (disk (scanned pre s)) p" "load_result (disk (scanned pre s)) p = Inl e"
    using p by simp_all
  from load_each_single_failure [OF this] p(3)
  have "load_each (p # post) (scanned pre s) = (Inl e, scanned pre s)"
    by (simp only: if_False)
  then show ?thesis
    by (simp add: load_each_append load_each_caught [OF pre])
qed

lemma scan_table_keep:
  "n \<notin> path_name ` {q \<in> set qs. loaded_ok d q} \<Longrightarrow> map_of (scan_table d qs t) n = map_of t n"
proof (induction qs arbitrary: t)
  case Nil
  then show ?case by simp
next
  case (Cons q qs)
  from Cons.prems have r: "n \<notin> path_name ` {q \<in> set qs. loaded_ok d q}" by auto
  show ?case
  proof (cases "loaded_ok d q")
    case True
    with Cons.prems have "path_name q \<noteq> n" by auto
    with True Cons.IH [OF r] show ?thesis
      by (auto simp: loaded_ok_def AList.update_conv' split: sum.splits)
  next
    case False
    with Cons.IH [OF r] show ?thesis
      by (auto simp: loaded_ok_def split: sum.splits)
  qed
qed

lemma scan_table_keys:
  "fst ` set (scan_table d ps t) = fst ` set t \<union> path_name ` {p \<in> set ps. loaded_ok d p}"
proof (induction ps arbitrary: t)
  case Nil
  then show ?case by simp
next
  case (Cons p ps)
  show ?case
  proof (cases "loaded_ok d p")
    case True
    then obtain pl where "is_dir d p" "load_result d p = Inr pl"
      by (auto simp: loaded_ok_def split: sum.splits)
    with True show ?thesis
      by (auto simp: Cons.IH AList.dom_update)
  next
    case False
    then have "scan_table d (p # ps) t = scan_table d ps t"
      by (auto simp: loaded_ok_def split: sum.splits)
    with False show ?thesis by (auto simp: Cons.IH)
  qed
qed

lemma scan_table_wf: "wf_table t \<Longrightarrow> wf_table (scan_table d ps t)"
proof (induction ps arbitrary: t)
  case Nil
  then show ?case by simp
next
  case (Cons p ps)
  show ?case
  proof (cases "load_result d p")
    case (Inl e)
    with Cons show ?thesis by simp
  next
    case (Inr pl)
    from load_result_Inr [OF this] have "name pl = path_name p" by auto
    with Cons.prems have "wf_table (AList.update (path_name p) pl t)"
      by (simp add: wf_table_update)
    with Inr Cons show ?thesis by simp
  qed
qed

lemma scan_table_lookup:
  "inj_on path_name (set ps) \<Longrightarrow> p \<in> set ps \<Longrightarrow> is_dir d p \<Longrightarrow> load_result d p = Inr pl \<Longrightarrow>
   map_of (scan_table d ps t) (path_name p) = Some pl"
proof (induction ps arbitrary: t)
  case Nil
  then show ?case by simp
next
  case (Cons q qs)
  from Cons.prems(1) have inj: "inj_on path_name (set qs)" by (simp add: inj_on_def)
  show ?case
  proof (cases "p \<in> set qs")
    case True
    from Cons.IH [OF inj True Cons.prems(3,4)] show ?thesis by simp
  next
    case False
    with Cons.prems(2) have pq: "p = q" by simp
    have "path_name p \<notin> path_name ` {x \<in> set qs. loaded_ok d x}"
    proof
      assume "path_name p \<in> path_name ` {x \<in> set qs. loaded_ok d x}"
      then obtain x where x: "x \<in> set qs" "path_name x = path_name p" by auto
      with Cons.prems(1) pq have "x = p" by (auto simp: inj_on_def)
      with x False show False by simp
    qed
    from scan_table_keep [OF this] pq Cons.prems(3,4) show ?thesis
      by (simp add: AList.update_conv')
  qed
qed

lemma iterdir_inj: "inj_on path_name (set (iterdir d dir))"
proof (rule inj_onI)
  fix p q assume "p \<in> set (iterdir d dir)" "q \<in> set (iterdir d dir)"
    and e: "path_name p = path_name q"
  then have "is_child_of dir p" "is_child_of dir q" by (simp_all add: iterdir_def)
  then have "p = dir @ CHR ''/'' # path_name p" "q = dir @ CHR ''/'' # path_name q"
    by (simp_all add: is_child_ofD)
  with e show "p = q" by simp
qed

lemma plugin_dirs_inj: "inj_on path_name (set (plugin_dirs d))"
  by (rule inj_on_subset [OF iterdir_inj]) (auto simp: plugin_dirs_def)

lemma plugin_dirs_is_dir: "p \<in> set (plugin_dirs d) \<Longrightarrow> is_dir d p"
  by (simp add: plugin_dirs_def)

lemma load_all_plugins_iterdir:
  "load_all_plugins s = load_each (iterdir (disk s) PLUGINS_DIR) (cleared s)"
  by (simp add: load_all_plugins_def cleared_def Let_def)

lemma load_all_plugins_each:
  "load_all_plugins s = load_each (plugin_dirs (disk s)) (cleared s)"
proof -
  have "load_each (iterdir (disk s) PLUGINS_DIR) (cleared s) =
      load_each (filter (is_dir (disk (cleared s))) (iterdir (disk s) PLUGINS_DIR)) (cleared s)"
    by (rule load_each_dirs)
  then show ?thesis by (simp add: load_all_plugins_iterdir plugin_dirs_def)
qed

lemma scan_events_dirs:
  "\<forall>p\<in>set ps. is_dir d p \<Longrightarrow>
   scan_events d ps =
     map (\<lambda>p. case load_result d p of
                 Inl e \<Rightarrow> PrintFailedLoading p e
               | Inr pl \<Rightarrow> PrintLoaded (path_name p)) ps"
  by (induction ps) (simp_all add: scan_events_def scan_event_def)

text \<open>
  Claim C7, as the code has it. \<open>load_all_plugins\<close> empties the table, then goes over the
  entries of the plugins directory that are directories, in order, and loads each one.
  When every load succeeds or raises an instance of \<^verbatim>\<open>Exception\<close>, it returns, having
  gone over all of them. When a load raises an exception that is not an instance of
  \<^verbatim>\<open>Exception\<close>, the loads before it caught, that exception propagates and the loop has
  gone over the entries before it only. An instance of \<^verbatim>\<open>Exception\<close> never propagates.
  After the loop went over a list of entries, the disk is unchanged, the trace has one
  line per entry (loaded, or failed with the error of its load), and the table holds
  exactly the records of the loads that succeeded, each under its name: nothing of the
  table before the call remains.
\<close>

theorem load_all_plugins_isolates_Exception:
  "(list_all (loads_caught (disk s)) (plugin_dirs (disk s)) \<longrightarrow>
      load_all_plugins s = (Inr (), scanned (plugin_dirs (disk s)) (cleared s)))
   \<and> (\<forall>pre p post e.
        plugin_dirs (disk s) = pre @ p # post \<and> list_all (loads_caught (disk s)) pre \<and>
        load_result (disk s) p = Inl e \<and> \<not> is_Exception e \<longrightarrow>
        load_all_plugins s = (Inl e, scanned pre (cleared s)))
   \<and> (\<forall>e. fst (load_all_plugins s) = Inl e \<longrightarrow> \<not> is_Exception e)
   \<and> (\<forall>ps qs. plugin_dirs (disk s) = ps @ qs \<longrightarrow>
        disk (scanned ps (cleared s)) = disk s
      \<and> trace (scanned ps (cleared s)) =
          trace s @ map (\<lambda>p. case load_result (disk s) p of
                               Inl e \<Rightarrow> PrintFailedLoading p e
                             | Inr pl \<Rightarrow> PrintLoaded (path_name p)) ps
      \<and> fst ` set (plugins (pm (scanned ps (cleared s)))) =
          path_name ` {p \<in> set ps. case load_result (disk s) p of Inl e \<Rightarrow> False | Inr pl \<Rightarrow> True}
      \<and> (\<forall>p\<in>set ps. \<forall>pl. load_result (disk s) p = Inr pl \<longrightarrow>
            map_of (plugins (pm (scanned ps (cleared s)))) (path_name p) = Some pl)
      \<and> wf_table (plugins (pm (scanned ps (cleared s)))))"
proof -
  let ?d = "disk s"
  have A: "load_all_plugins s = (Inr (), scanned (plugin_dirs ?d) (cleared s))"
    if "list_all (loads_caught ?d) (plugin_dirs ?d)"
  proof -
    have "filter (is_dir ?d) (plugin_dirs ?d) = plugin_dirs ?d"
      by (simp add: plugin_dirs_def)
    with that
    have "list_all (loads_caught (disk (cleared s)))
        (filter (is_dir (disk (cleared s))) (plugin_dirs ?d))" by simp
    from load_each_caught [OF this] show ?thesis by (simp only: load_all_plugins_each)
  qed
  have B: "load_all_plugins s = (Inl e, scanned pre (cleared s))"
    if "plugin_dirs ?d = pre @ p # post" "list_all (loads_caught ?d) pre"
      "load_result ?d p = Inl e" "\<not> is_Exception e" for pre p post e
  proof -
    from that(1) have "p \<in> set (plugin_dirs ?d)" by simp
    then have dp: "is_dir (disk (cleared s)) p" by (simp add: plugin_dirs_is_dir)
    from that(2)
    have pre: "list_all (loads_caught (disk (cleared s))) (filter (is_dir (disk (cleared s))) pre)"
      by (simp add: list_all_iff)
    from that(3) have r: "load_result (disk (cleared s)) p = Inl e" by simp
    from load_each_stops [OF pre dp r that(4), of post] that(1) show ?thesis
      by (simp only: load_all_plugins_each)
  qed
  have C: "\<not> is_Exception e" if "fst (load_all_plugins s) = Inl e" for e
  proof -
    from that have "fst (load_each (plugin_dirs ?d) (cleared s)) = Inl e"
      by (simp only: load_all_plugins_each)
    then show ?thesis by (rule load_each_propagates)
  qed
  have D: "disk (scanned ps (cleared s)) = disk s
      \<and> trace (scanned ps (cleared s)) =
          trace s @ map (\<lambda>p. case load_result (disk s) p of
                               Inl e \<Rightarrow> PrintFailedLoading p e
                             | Inr pl \<Rightarrow> PrintLoaded (path_name p)) ps
      \<and> fst ` set (plugins (pm (scanned ps (cleared s)))) =
          path_name ` {p \<in> set ps. case load_result (disk s) p of Inl e \<Rightarrow> False | Inr pl \<Rightarrow> True}
      \<and> (\<forall>p\<in>set ps. \<forall>pl. load_result (disk s) p = Inr pl \<longrightarrow>
            map_of (plugins (pm (scanned ps (cleared s)))) (path_name p) = Some pl)
      \<and> wf_table (plugins (pm (scanned ps (cleared s))))"
    if "plugin_dirs ?d = ps @ qs" for ps qs
  proof -
    from that have sub: "set ps \<subseteq> set (plugin_dirs ?d)" by auto
    then have dirs: "\<forall>p\<in>set ps. is_dir ?d p" by (auto simp: plugin_dirs_is_dir)
    from plugin_dirs_inj [of ?d] sub have inj: "inj_on path_name (set ps)"
      by (rule inj_on_subset)
    have 1: "disk (scanned ps (cleared s)) = disk s" by simp
    have 2: "trace (scanned ps (cleared s)) =
          trace s @ map (\<lambda>p. case load_result (disk s) p of
                               Inl e \<Rightarrow> PrintFailedLoading p e
                             | Inr pl \<Rightarrow> PrintLoaded (path_name p)) ps"
      by (simp add: scan_events_dirs [OF dirs])
    have "{p \<in> set ps. loaded_ok ?d p} =
        {p \<in> set ps. case load_result ?d p of Inl e \<Rightarrow> False | Inr pl \<Rightarrow> True}"
      using dirs by (auto simp: loaded_ok_def)
    then have 3: "fst ` set (plugins (pm (scanned ps (cleared s)))) =
          path_name ` {p \<in> set ps. case load_result (disk s) p of Inl e \<Rightarrow> False | Inr pl \<Rightarrow> True}"
      by (simp add: scan_table_keys)
    have 4: "\<forall>p\<in>set ps. \<forall>pl. load_result (disk s) p = Inr pl \<longrightarrow>
            map_of (plugins (pm (scanned ps (cleared s)))) (path_name p) = Some pl"
      using dirs by (auto simp: scan_table_lookup [OF inj])
    have "wf_table []" by (simp add: wf_table_def)
    from scan_table_wf [OF this]
    have 5: "wf_table (plugins (pm (scanned ps (cleared s))))" by simp
    from 1 2 3 4 5 show ?thesis by (intro conjI)
  qed
  from A B C D show ?thesis by blast
qed

theorem load_all_plugins_isolates_Exception_witness:
  "table_view sample_state =
     [(''a'', ''plugins/a'', [FuncVal 1, FuncVal 2]), (''b'', ''plugins/b'', [FuncVal 4])]
   \<and> plugin_dirs (disk sample_state) =
       [''plugins/a'', ''plugins/n'', ''plugins/c'', ''plugins/r'', ''plugins/p'', ''plugins/b'']
   \<and> list_all (loads_caught (disk sample_state)) (plugin_dirs (disk sample_state))
   \<and> load_all_plugins sample_state =
       (Inr (), scanned (plugin_dirs (disk sample_state)) (cleared sample_state))
   \<and> disk (scanned (plugin_dirs (disk sample_state)) (cleared sample_state)) = disk sample_state
   \<and> trace (scanned (plugin_dirs (disk sample_state)) (cleared sample_state)) =
       trace sample_state @
       [PrintLoaded ''a'',
        PrintFailedLoading ''plugins/n'' (FileNotFoundError ''plugin-main.py missing in plugins/n''),
        PrintFailedLoading ''plugins/c'' (RuntimeError ''Error executing plugin-main.py: bad''),
        PrintFailedLoading ''plugins/r''
          (RuntimeError ''plugin-main.py must provide register(api) function''),
        PrintFailedLoading ''plugins/p'' (RuntimeError ''Plugin register() failed: late''),
        PrintLoaded ''b'']
   \<and> fst ` set (plugins (pm (scanned (plugin_dirs (disk sample_state)) (cleared sample_state)))) =
       {''a'', ''b''}
   \<and> map_of (plugins (pm (scanned (plugin_dirs (disk sample_state)) (cleared sample_state)))) ''b'' =
       Some \<lparr>name = ''b'', path = ''plugins/b'',
             module = Some (Module (Some (RegisterFn
               [RegisterHook ''x'' (FuncVal 4), RegisterHook ''y'' (IntVal 7)] None))),
             hooks = [(''x'', [FuncVal 4]), (''y'', [IntVal 7])]\<rparr>
   \<and> wf_table (plugins (pm (scanned (plugin_dirs (disk sample_state)) (cleared sample_state))))
   \<and> plugin_dirs (disk (init_state exit_load_disk)) =
       [''plugins/a'', ''plugins/n''] @ ''plugins/k'' # [''plugins/b'']
   \<and> list_all (loads_caught (disk (init_state exit_load_disk))) [''plugins/a'', ''plugins/n'']
   \<and> load_result (disk (init_state exit_load_disk)) ''plugins/k'' = Inl SystemExit
   \<and> \<not> is_Exception SystemExit
   \<and> load_all_plugins (init_state exit_load_disk) =
       (Inl SystemExit,
        scanned [''plugins/a'', ''plugins/n''] (cleared (init_state exit_load_disk)))
   \<and> trace (scanned [''plugins/a'', ''plugins/n''] (cleared (init_state exit_load_disk))) =
       [PrintLoaded ''a'',
        PrintFailedLoading ''plugins/n'' (FileNotFoundError ''plugin-main.py missing in plugins/n'')]
   \<and> fst ` set (plugins (pm (scanned [''plugins/a'', ''plugins/n'']
         (cleared (init_state exit_load_disk))))) = {''a''}"
proof -
  let ?s = "sample_state"
  let ?ps = "plugin_dirs (disk sample_state)"
  let ?t = "init_state exit_load_disk"
  let ?pre = "[''plugins/a'', ''plugins/n'']"
  let ?b = "\<lparr>name = ''b'', path = ''plugins/b'',
             module = Some (Module (Some (RegisterFn
               [RegisterHook ''x'' (FuncVal 4), RegisterHook ''y'' (IntVal 7)] None))),
             hooks = [(''x'', [FuncVal 4]), (''y'', [IntVal 7])]\<rparr>"
  have tv: "table_view ?s =
     [(''a'', ''plugins/a'', [FuncVal 1, FuncVal 2]), (''b'', ''plugins/b'', [FuncVal 4])]"
    by code_simp
  have ps: "?ps =
       [''plugins/a'', ''plugins/n'', ''plugins/c'', ''plugins/r'', ''plugins/p'', ''plugins/b'']"
    by code_simp
  have hA: "list_all (loads_caught (disk ?s)) ?ps" by code_simp
  have ev: "map (\<lambda>p. case load_result (disk ?s) p of
                       Inl e \<Rightarrow> PrintFailedLoading p e
                     | Inr pl \<Rightarrow> PrintLoaded (path_name p)) ?ps =
       [PrintLoaded ''a'',
        PrintFailedLoading ''plugins/n'' (FileNotFoundError ''plugin-main.py missing in plugins/n''),
        PrintFailedLoading ''plugins/c'' (RuntimeError ''Error executing plugin-main.py: bad''),
        PrintFailedLoading ''plugins/r''
          (RuntimeError ''plugin-main.py must provide register(api) function''),
        PrintFailedLoading ''plugins/p'' (RuntimeError ''Plugin register() failed: late''),
        PrintLoaded ''b'']"
    by code_simp
  have ok: "filter (\<lambda>p. case load_result (disk ?s) p of Inl e \<Rightarrow> False | Inr pl \<Rightarrow> True) ?ps =
      [''plugins/a'', ''plugins/b'']"
    by code_simp
  have pn: "map path_name [''plugins/a'', ''plugins/b''] = [''a'', ''b'']" by code_simp
  have lb: "load_result (disk ?s) ''plugins/b'' = Inr ?b" by code_simp
  have mem: "''plugins/b'' \<in> set ?ps" by (simp add: ps)
  have pb: "path_name ''plugins/b'' = ''b''" by code_simp
  have tps: "plugin_dirs (disk ?t) = ?pre @ ''plugins/k'' # [''plugins/b'']" by code_simp
  have hB: "list_all (loads_caught (disk ?t)) ?pre" by code_simp
  have lk: "load_result (disk ?t) ''plugins/k'' = Inl SystemExit" by code_simp
  have nx: "\<not> is_Exception SystemExit" by simp
  have t0: "trace ?t = []" by (simp add: init_state_def)
  have ev2: "map (\<lambda>p. case load_result (disk ?t) p of
                       Inl e \<Rightarrow> PrintFailedLoading p e
                     | Inr pl \<Rightarrow> PrintLoaded (path_name p)) ?pre =
       [PrintLoaded ''a'',
        PrintFailedLoading ''plugins/n'' (FileNotFoundError ''plugin-main.py missing in plugins/n'')]"
    by code_simp
  have ok2: "filter (\<lambda>p. case load_result (disk ?t) p of Inl e \<Rightarrow> False | Inr pl \<Rightarrow> True) ?pre =
      [''plugins/a'']"
    by code_simp
  have pa: "path_name ''plugins/a'' = ''a''" by code_simp
  note thm1 = load_all_plugins_isolates_Exception [of ?s]
  note thm2 = load_all_plugins_isolates_Exception [of ?t]
  have 1: "load_all_plugins ?s = (Inr (), scanned ?ps (cleared ?s))"
    by (rule thm1 [THEN conjunct1, THEN mp, OF hA])
  have app: "?ps = ?ps @ []" by simp
  note D = thm1 [THEN conjunct2, THEN conjunct2, THEN conjunct2,
      THEN spec [of _ ?ps], THEN spec [of _ "[]"], THEN mp, OF app]
  note D2 = D [THEN conjunct2]
  note D3 = D2 [THEN conjunct2]
  note D4 = D3 [THEN conjunct2]
  have 2: "disk (scanned ?ps (cleared ?s)) = disk ?s" by (rule D [THEN conjunct1])
  have 3: "trace (scanned ?ps (cleared ?s)) = trace ?s @
       [PrintLoaded ''a'',
        PrintFailedLoading ''plugins/n'' (FileNotFoundError ''plugin-main.py missing in plugins/n''),
        PrintFailedLoading ''plugins/c'' (RuntimeError ''Error executing plugin-main.py: bad''),
        PrintFailedLoading ''plugins/r''
          (RuntimeError ''plugin-main.py must provide register(api) function''),
        PrintFailedLoading ''plugins/p'' (RuntimeError ''Plugin register() failed: late''),
        PrintLoaded ''b'']"
    using D2 [THEN conjunct1] by (simp only: ev)
  have "{p \<in> set ?ps. case load_result (disk ?s) p of Inl e \<Rightarrow> False | Inr pl \<Rightarrow> True} =
      set (filter (\<lambda>p. case load_result (disk ?s) p of Inl e \<Rightarrow> False | Inr pl \<Rightarrow> True) ?ps)"
    by (simp only: set_filter)
  also have "\<dots> = set [''plugins/a'', ''plugins/b'']" by (simp only: ok)
  finally have "path_name ` {p \<in> set ?ps. case load_result (disk ?s) p of
      Inl e \<Rightarrow> False | Inr pl \<Rightarrow> True} = set (map path_name [''plugins/a'', ''plugins/b''])"
    by (simp only: set_map)
  also have "\<dots> = {''a'', ''b''}" by (simp only: pn) simp
  finally have 4: "fst ` set (plugins (pm (scanned ?ps (cleared ?s)))) = {''a'', ''b''}"
    by (rule trans [OF D3 [THEN conjunct1]])
  have "map_of (plugins (pm (scanned ?ps (cleared ?s)))) (path_name ''plugins/b'') = Some ?b"
    by (rule D4 [THEN conjunct1, THEN bspec, OF mem, THEN spec, THEN mp, OF lb])
  then have 5: "map_of (plugins (pm (scanned ?ps (cleared ?s)))) ''b'' = Some ?b"
    by (simp only: pb)
  have 6: "wf_table (plugins (pm (scanned ?ps (cleared ?s))))" by (rule D4 [THEN conjunct2])
  have 7: "load_all_plugins ?t = (Inl SystemExit, scanned ?pre (cleared ?t))"
    by (rule thm2 [THEN conjunct2, THEN conjunct1, THEN spec [of _ ?pre],
          THEN spec [of _ "''plugins/k''"], THEN spec [of _ "[''plugins/b'']"],
          THEN spec [of _ SystemExit], THEN mp, OF conjI [OF tps conjI [OF hB conjI [OF lk nx]]]])
  note E = thm2 [THEN conjunct2, THEN conjunct2, THEN conjunct2,
      THEN spec [of _ ?pre], THEN spec [of _ "''plugins/k'' # [''plugins/b'']"], THEN mp, OF tps]
  have 8: "trace (scanned ?pre (cleared ?t)) =
       [PrintLoaded ''a'',
        PrintFailedLoading ''plugins/n'' (FileNotFoundError ''plugin-main.py missing in plugins/n'')]"
    using E [THEN conjunct2, THEN conjunct1] by (simp only: ev2 t0 append_Nil)
  have "{p \<in> set ?pre. case load_result (disk ?t) p of Inl e \<Rightarrow> False | Inr pl \<Rightarrow> True} =
      set (filter (\<lambda>p. case load_result (disk ?t) p of Inl e \<Rightarrow> False | Inr pl \<Rightarrow> True) ?pre)"
    by (simp only: set_filter)
  also have "\<dots> = set [''plugins/a'']" by (simp only: ok2)
  finally have "path_name ` {p \<in> set ?pre. case load_result (disk ?t) p of
      Inl e \<Rightarrow> False | Inr pl \<Rightarrow> True} = set (map path_name [''plugins/a''])"
    by (simp only: set_map)
  also have "\<dots> = {''a''}" using pa by simp
  finally have 9: "fst ` set (plugins (pm (scanned ?pre (cleared ?t)))) = {''a''}"
    by (rule trans [OF E [THEN conjunct2, THEN conjunct2, THEN conjunct1]])
  show ?thesis
    by (intro conjI tv ps hA 1 2 3 4 5 6 tps hB lk nx 7 8 9)
qed

text \<open>
  A plugin whose entrypoint asks the interpreter to exit: the scan stops there. The
  failure is not logged, the directory \<^verbatim>\<open>plugins/b\<close> after it is not attempted although
  its load succeeds, and the table holds the plugin loaded before the exit only.
\<close>

theorem load_all_plugins_propagates_SystemExit:
  "plugin_dirs exit_load_disk = [''plugins/a'', ''plugins/n'', ''plugins/k'', ''plugins/b'']
   \<and> loaded_ok exit_load_disk ''plugins/b''
   \<and> fst (load_all_plugins (init_state exit_load_disk)) = Inl SystemExit
   \<and> table_view (snd (load_all_plugins (init_state exit_load_disk))) =
       [(''a'', ''plugins/a'', [FuncVal 2])]
   \<and> trace (snd (load_all_plugins (init_state exit_load_disk))) =
       [PrintLoaded ''a'',
        PrintFailedLoading ''plugins/n'' (FileNotFoundError ''plugin-main.py missing in plugins/n'')]"
  by code_simp

subsection \<open>An install whose load fails\<close>






end
